theory Spec2Isabelle
  imports Main "HOL-Library.AList"
begin

section \<open>Values, dictionaries and errors\<close>

text \<open>
  The change-event consumers of the repository (\<^verbatim>\<open>scripts/kafka_to_weaviate.py\<close> and
  \<^verbatim>\<open>email_service.py\<close>) work on decoded JSON. A decoded JSON value is one of Python's
  \<^verbatim>\<open>None\<close>, \<^verbatim>\<open>bool\<close>, \<^verbatim>\<open>int\<close> (unbounded), \<^verbatim>\<open>float\<close>, \<^verbatim>\<open>str\<close>, \<^verbatim>\<open>list\<close> and \<^verbatim>\<open>dict\<close> with string keys.
  A float is kept as mantissa and exponent, \<open>PFloat m e\<close> for \<open>m * 2 ^ e\<close>; the consumers never
  compute with one.
  A dictionary is an association list in insertion order: \<open>map_of\<close> reads a key,
  \<open>AList.update\<close> is the assignment \<^verbatim>\<open>d[k] = v\<close> (in place for a key that is there, appended
  otherwise) and \<open>AList.delete\<close> removes a key.
\<close>

datatype pyval =
    PNone
  | PBool bool
  | PInt int
  | PFloat int int
  | PStr string
  | PList "pyval list"
  | PDict "(string \<times> pyval) list"

type_synonym pydict = "(string \<times> pyval) list"

text \<open>
  An exception is named by its built-in class: \<^verbatim>\<open>ValueError\<close> also stands for its subclasses
  \<^verbatim>\<open>JSONDecodeError\<close> and \<^verbatim>\<open>UnicodeDecodeError\<close>.
\<close>

datatype pyerror =
    OverflowError | ValueError | TypeError | KeyError | AttributeError | OSError
  | ConnectionError | NoBrokersAvailable

text \<open>Truth value of a decoded JSON value (\<^verbatim>\<open>if x:\<close>).\<close>

fun truthy :: "pyval \<Rightarrow> bool" where
  "truthy PNone = False"
| "truthy (PBool b) = b"
| "truthy (PInt n) = (n \<noteq> 0)"
| "truthy (PFloat m e) = (m \<noteq> 0)"
| "truthy (PStr s) = (s \<noteq> [])"
| "truthy (PList xs) = (xs \<noteq> [])"
| "truthy (PDict d) = (d \<noteq> [])"

text \<open>
  \<^verbatim>\<open>isinstance(v, int)\<close>: the integer a value is, if it is one. In Python \<^verbatim>\<open>bool\<close> is a
  subclass of \<^verbatim>\<open>int\<close>, so \<^verbatim>\<open>True\<close> and \<^verbatim>\<open>False\<close> pass the test as 1 and 0.
\<close>

fun int_value :: "pyval \<Rightarrow> int option" where
  "int_value (PInt n) = Some n"
| "int_value (PBool b) = Some (if b then 1 else 0)"
| "int_value _ = None"

text \<open>\<^verbatim>\<open>d.get(k, dflt)\<close>.\<close>

definition dict_get :: "('k \<times> 'v) list \<Rightarrow> 'k \<Rightarrow> 'v \<Rightarrow> 'v" where
  "dict_get d k dflt = (case map_of d k of Some v \<Rightarrow> v | None \<Rightarrow> dflt)"

text \<open>\<^verbatim>\<open>d[k]\<close>, which raises \<^verbatim>\<open>KeyError\<close> for a missing key.\<close>

definition getitem :: "('k \<times> 'v) list \<Rightarrow> 'k \<Rightarrow> pyerror + 'v" where
  "getitem d k = (case map_of d k of Some v \<Rightarrow> Inr v | None \<Rightarrow> Inl KeyError)"

text \<open>Sequencing of steps that may raise: the first exception ends the sequence.\<close>

definition and_then :: "pyerror + 'a \<Rightarrow> ('a \<Rightarrow> pyerror + 'b) \<Rightarrow> pyerror + 'b" where
  "and_then r f = (case r of Inl e \<Rightarrow> Inl e | Inr x \<Rightarrow> f x)"


section \<open>Decimal text of integers\<close>

definition digit_char :: "nat \<Rightarrow> char" where
  "digit_char d = ''0123456789'' ! d"

fun dec_nat :: "nat \<Rightarrow> string" where
  "dec_nat n = (if n < 10 then [digit_char n] else dec_nat (n div 10) @ [digit_char (n mod 10)])"

declare dec_nat.simps [simp del]

text \<open>\<^verbatim>\<open>str(i)\<close> for an integer.\<close>

definition str_int :: "int \<Rightarrow> string" where
  "str_int i = (if i < 0 then ''-'' @ dec_nat (nat (- i)) else dec_nat (nat i))"

text \<open>
  The format \<^verbatim>\<open>{i:02d}\<close>: at least two characters, filled with zeros after the sign.
  A negative number already has two characters with its sign.
\<close>

definition format_02d :: "int \<Rightarrow> string" where
  "format_02d i =
     (if i < 0 then ''-'' @ dec_nat (nat (- i))
      else if i < 10 then ''0'' @ dec_nat (nat i)
      else dec_nat (nat i))"

text \<open>The format \<^verbatim>\<open>%04d\<close> for a number that is not negative.\<close>

definition format_04d :: "nat \<Rightarrow> string" where
  "format_04d n = replicate (4 - length (dec_nat n)) (CHR ''0'') @ dec_nat n"


section \<open>The proleptic Gregorian calendar of \<^verbatim>\<open>datetime\<close>\<close>

text \<open>
  \<^verbatim>\<open>convert_dates\<close> computes \<^verbatim>\<open>datetime(1970, 1, 1) + timedelta(days=n)\<close>. The standard
  library does this on ordinals (day 1 is 0001-01-01): it adds \<^verbatim>\<open>n\<close> to the ordinal of the
  epoch and converts the sum back with \<^verbatim>\<open>_ord2ymd\<close>, and it raises \<^verbatim>\<open>OverflowError\<close> when the
  sum leaves \<^verbatim>\<open>1 .. _MAXORDINAL\<close> (9999-12-31). The definitions follow the library's
  \<^verbatim>\<open>_is_leap\<close>, \<^verbatim>\<open>_days_before_year\<close>, \<^verbatim>\<open>_days_in_month\<close>, \<^verbatim>\<open>_days_before_month\<close>, \<^verbatim>\<open>_ymd2ord\<close> and
  \<^verbatim>\<open>_ord2ymd\<close>; \<open>div\<close> and \<open>mod\<close> on \<open>int\<close> round down, as \<^verbatim>\<open>//\<close> and \<^verbatim>\<open>%\<close> do.
\<close>

definition DAYS_IN_MONTH :: "int list" where
  "DAYS_IN_MONTH = [-1, 31, 28, 31, 30, 31, 30, 31, 31, 30, 31, 30, 31]"

definition DAYS_BEFORE_MONTH :: "int list" where
  "DAYS_BEFORE_MONTH = [-1, 0, 31, 59, 90, 120, 151, 181, 212, 243, 273, 304, 334]"

definition MAXORDINAL :: int where
  "MAXORDINAL = 3652059"

definition is_leap :: "int \<Rightarrow> bool" where
  "is_leap year = (year mod 4 = 0 \<and> (year mod 100 \<noteq> 0 \<or> year mod 400 = 0))"

definition days_before_year :: "int \<Rightarrow> int" where
  "days_before_year year = (let y = year - 1 in y * 365 + y div 4 - y div 100 + y div 400)"

definition days_in_month :: "int \<Rightarrow> int \<Rightarrow> int" where
  "days_in_month year month =
     (if month = 2 \<and> is_leap year then 29 else DAYS_IN_MONTH ! nat month)"

definition days_before_month :: "int \<Rightarrow> int \<Rightarrow> int" where
  "days_before_month year month =
     DAYS_BEFORE_MONTH ! nat month + (if month > 2 \<and> is_leap year then 1 else 0)"

definition ymd2ord :: "int \<Rightarrow> int \<Rightarrow> int \<Rightarrow> int" where
  "ymd2ord year month day = days_before_year year + days_before_month year month + day"

text \<open>
  The last part of \<^verbatim>\<open>_ord2ymd\<close>: month and day from the day \<open>n\<close> of the year (counted from 0),
  by the estimate \<^verbatim>\<open>(n + 50) >> 5\<close> and one correction.
\<close>

definition month_day :: "bool \<Rightarrow> int \<Rightarrow> int \<times> int" where
  "month_day leapyear n =
     (let month = (n + 50) div 32;
          preceding = DAYS_BEFORE_MONTH ! nat month + (if month > 2 \<and> leapyear then 1 else 0)
      in if preceding > n
         then (let month' = month - 1;
                   preceding' = preceding -
                     (DAYS_IN_MONTH ! nat month' + (if month' = 2 \<and> leapyear then 1 else 0))
               in (month', n - preceding' + 1))
         else (month, n - preceding + 1))"

definition ord2ymd :: "int \<Rightarrow> int \<times> int \<times> int" where
  "ord2ymd ordinal =
     (let n = ordinal - 1;
          n400 = n div 146097; n = n mod 146097;
          n100 = n div 36524; n = n mod 36524;
          n4 = n div 1461; n = n mod 1461;
          n1 = n div 365; n = n mod 365;
          year = n400 * 400 + 1 + (n100 * 100 + n4 * 4 + n1)
      in if n1 = 4 \<or> n100 = 4 then (year - 1, 12, 31)
         else (let leapyear = (n1 = 3 \<and> (n4 \<noteq> 24 \<or> n100 = 3));
                   (month, day) = month_day leapyear n
               in (year, month, day)))"

text \<open>A date of the calendar: a month from 1 to 12 and a day the month has.\<close>

definition valid_date :: "int \<Rightarrow> int \<Rightarrow> int \<Rightarrow> bool" where
  "valid_date year month day =
     (1 \<le> month \<and> month \<le> 12 \<and> 1 \<le> day \<and> day \<le> days_in_month year month)"

text \<open>
  \<^verbatim>\<open>datetime(1970, 1, 1) + timedelta(days=days)\<close>, as year, month and day. \<^verbatim>\<open>timedelta\<close> itself
  raises \<^verbatim>\<open>OverflowError\<close> beyond 999999999 days.
\<close>

definition epoch_plus_days :: "int \<Rightarrow> pyerror + (int \<times> int \<times> int)" where
  "epoch_plus_days days =
     (if \<bar>days\<bar> > 999999999 then Inl OverflowError
      else (let ordinal = ymd2ord 1970 1 1 + days
            in if 0 < ordinal \<and> ordinal \<le> MAXORDINAL then Inr (ord2ymd ordinal)
               else Inl OverflowError))"


section \<open>What the platform decides\<close>

text \<open>
  Two renderings are not fixed by the program text. \<^verbatim>\<open>strftime('%Y')\<close> prints a year from
  1000 on with its four digits, but the text for a year below 1000 is the C library's
  (padded with zeros on some platforms, not padded on others). And
  \<^verbatim>\<open>datetime.fromtimestamp(ms / 1000).strftime('%Y-%m-%d %H:%M:%S')\<close> divides in floating
  point, renders in the local time zone of the process and raises for a time stamp the
  platform cannot represent. Both are parameters of the model.
\<close>

record platform =
  short_year :: "int \<Rightarrow> string"
  fromtimestamp_text :: "int \<Rightarrow> pyerror + string"

definition strftime_Y :: "platform \<Rightarrow> int \<Rightarrow> string" where
  "strftime_Y pf year = (if 1000 \<le> year then str_int year else short_year pf year)"

text \<open>\<^verbatim>\<open>strftime('%Y-%m-%d')\<close> of a date.\<close>

definition strftime_ymd :: "platform \<Rightarrow> int \<times> int \<times> int \<Rightarrow> string" where
  "strftime_ymd pf ymd =
     (case ymd of (year, month, day) \<Rightarrow>
        strftime_Y pf year @ ''-'' @ format_02d month @ ''-'' @ format_02d day)"

text \<open>
  A platform for concrete runs: CPython 3.11 on Linux with the GNU C library and 64-bit
  \<^verbatim>\<open>time_t\<close>, the local zone being UTC. The C library leaves short years unpadded.
  \<^verbatim>\<open>datetime.fromtimestamp(ms / 1000)\<close> returns for the time stamps from 0001-01-02 00:00:00
  to 9999-12-31 23:59:59: it also looks one day back, to detect a repeated local hour,
  and that takes the first day of the calendar away. Below and above it raises
  \<^verbatim>\<open>ValueError\<close> as long as the C library can name the year, \<^verbatim>\<open>OSError\<close> when it cannot, and
  \<^verbatim>\<open>OverflowError\<close> when the seconds do not fit \<^verbatim>\<open>time_t\<close>. The bounds are the integers at
  which the double-precision quotient \<^verbatim>\<open>ms / 1000\<close> crosses the limits of the C library.
  Where it returns, the quotient is within 30 microseconds of the exact one, so the
  second printed is the whole second \<open>ms div 1000\<close>.
\<close>

definition utc_fromtimestamp :: "int \<Rightarrow> pyerror + string" where
  "utc_fromtimestamp ms =
     (if ms < - 9223372036854776832000 \<or> 9223372036854775296000 \<le> ms then Inl OverflowError
      else if ms < - 67768040609740804000 \<or> 67768036191676796000 \<le> ms then Inl OSError
      else if ms < - 62135510400000 \<or> 253402300800000 \<le> ms then Inl ValueError
      else (let secs = ms div 1000; ordinal = ymd2ord 1970 1 1 + secs div 86400;
                s = secs mod 86400
            in case ord2ymd ordinal of (year, month, day) \<Rightarrow>
                 Inr (str_int year @ ''-''
                      @ format_02d month @ ''-'' @ format_02d day @ '' ''
                      @ format_02d (s div 3600) @ '':'' @ format_02d ((s mod 3600) div 60)
                      @ '':'' @ format_02d (s mod 60))))"

definition utc_platform :: platform where
  "utc_platform = \<lparr>short_year = str_int, fromtimestamp_text = utc_fromtimestamp\<rparr>"


section \<open>\<^verbatim>\<open>kafka_to_weaviate.py\<close>: the converter\<close>

definition WEAVIATE_CLASS :: string where
  "WEAVIATE_CLASS = ''Event''"

text \<open>
  The three parts of \<^verbatim>\<open>convert_dates\<close>, each working on \<^verbatim>\<open>converted_data\<close>:
  \<^verbatim>\<open>event_date\<close> (days since the epoch), \<^verbatim>\<open>event_time\<close> (milliseconds since midnight) and the
  loop over \<^verbatim>\<open>created_at\<close> and \<^verbatim>\<open>updated_at\<close> (milliseconds since the epoch). None of them is
  inside a \<^verbatim>\<open>try\<close>, so an exception of the date arithmetic leaves \<^verbatim>\<open>convert_dates\<close>.
\<close>

definition convert_event_date :: "platform \<Rightarrow> pydict \<Rightarrow> pyerror + pydict" where
  "convert_event_date pf converted_data =
     (case map_of converted_data ''event_date'' of
        None \<Rightarrow> Inr converted_data
      | Some v \<Rightarrow>
          (case int_value v of
             None \<Rightarrow> Inr converted_data
           | Some days \<Rightarrow>
               and_then (epoch_plus_days days) (\<lambda>epoch_date.
                 Inr (AList.update ''event_date'' (PStr (strftime_ymd pf epoch_date))
                        converted_data))))"

definition time_text :: "int \<Rightarrow> string" where
  "time_text ms =
     (let total_seconds = ms div 1000;
          hours = total_seconds div 3600;
          minutes = (total_seconds mod 3600) div 60;
          seconds = total_seconds mod 60
      in format_02d hours @ '':'' @ format_02d minutes @ '':'' @ format_02d seconds)"

definition convert_event_time :: "pydict \<Rightarrow> pydict" where
  "convert_event_time converted_data =
     (case map_of converted_data ''event_time'' of
        None \<Rightarrow> converted_data
      | Some v \<Rightarrow>
          (case int_value v of
             None \<Rightarrow> converted_data
           | Some ms \<Rightarrow> AList.update ''event_time'' (PStr (time_text ms)) converted_data))"

definition convert_timestamp :: "platform \<Rightarrow> string \<Rightarrow> pydict \<Rightarrow> pyerror + pydict" where
  "convert_timestamp pf field converted_data =
     (case map_of converted_data field of
        None \<Rightarrow> Inr converted_data
      | Some v \<Rightarrow>
          (case int_value v of
             None \<Rightarrow> Inr converted_data
           | Some ms \<Rightarrow>
               and_then (fromtimestamp_text pf ms) (\<lambda>text.
                 Inr (AList.update field (PStr text) converted_data))))"

fun convert_timestamps :: "platform \<Rightarrow> string list \<Rightarrow> pydict \<Rightarrow> pyerror + pydict" where
  "convert_timestamps pf [] converted_data = Inr converted_data"
| "convert_timestamps pf (field # rest) converted_data =
     and_then (convert_timestamp pf field converted_data) (convert_timestamps pf rest)"

definition convert_dates :: "platform \<Rightarrow> pydict \<Rightarrow> pyerror + pydict" where
  "convert_dates pf event_data =
     (let converted_data = event_data
      in and_then (convert_event_date pf converted_data) (\<lambda>converted_data.
           convert_timestamps pf [''created_at'', ''updated_at'']
             (convert_event_time converted_data)))"

text \<open>The four fields \<^verbatim>\<open>convert_dates\<close> looks at.\<close>

definition temporal_fields :: "string list" where
  "temporal_fields = [''event_date'', ''event_time'', ''created_at'', ''updated_at'']"


subsection \<open>The converter on objects with identity\<close>







section \<open>\<^verbatim>\<open>kafka_to_weaviate.py\<close>: the index and the consumer loop\<close>

text \<open>
  The search index is reached through one call, \<^verbatim>\<open>requests.post(WEAVIATE_URL, json=obj)\<close>
  on the object-creation endpoint \<^verbatim>\<open>/v1/objects\<close>. That endpoint stores the body as a new
  object: under the identity the body names in its \<^verbatim>\<open>id\<close> field when it has one (and it
  refuses, with status 422, an identity that is taken), under a newly generated
  identity otherwise. The call raises when the index cannot be reached; a body the
  schema validation refuses is answered with status 422 and not stored.
\<close>

datatype doc_id = Given pyval | Generated nat

record weaviate =
  online :: bool
  validates :: "pyval \<Rightarrow> bool"
  objects :: "(doc_id \<times> pyval) list"
  generated :: nat

definition weaviate_post :: "pyval \<Rightarrow> weaviate \<Rightarrow> (pyerror + nat) \<times> weaviate" where
  "weaviate_post body w =
     (if \<not> online w then (Inl ConnectionError, w)
      else if \<not> validates w body then (Inr 422, w)
      else (case body of
              PDict b \<Rightarrow>
                (case map_of b ''id'' of
                   None \<Rightarrow>
                     (Inr 200, w\<lparr>objects := objects w @ [(Generated (generated w), body)],
                                 generated := generated w + 1\<rparr>)
                 | Some i \<Rightarrow>
                     if Given i \<in> set (map fst (objects w)) then (Inr 422, w)
                     else (Inr 200, w\<lparr>objects := objects w @ [(Given i, body)]\<rparr>))
            | _ \<Rightarrow> (Inr 422, w)))"

text \<open>
  \<^verbatim>\<open>send_to_weaviate\<close> after the conversion: \<^verbatim>\<open>pop('id', None)\<close>, the guarded assignment of
  \<^verbatim>\<open>postgres_id\<close>, and the request body \<^verbatim>\<open>obj\<close>.
\<close>

definition build_object :: "pydict \<Rightarrow> pyval" where
  "build_object event_data =
     (let postgres_id = dict_get event_data ''id'' PNone;
          event_data = AList.delete ''id'' event_data;
          event_data = (if truthy postgres_id
                        then AList.update ''postgres_id'' postgres_id event_data
                        else event_data)
      in PDict [(''class'', PStr WEAVIATE_CLASS), (''properties'', PDict event_data)])"

text \<open>
  \<^verbatim>\<open>send_to_weaviate\<close>. Only the \<^verbatim>\<open>requests.post\<close> call is inside \<^verbatim>\<open>try\<close>: an exception of
  the transport is logged and dropped, an exception of \<^verbatim>\<open>convert_dates\<close> leaves the function.
  The status of the response is logged and not looked at.
\<close>

definition send_to_weaviate :: "platform \<Rightarrow> pydict \<Rightarrow> weaviate \<Rightarrow> (pyerror + unit) \<times> weaviate" where
  "send_to_weaviate pf event_data w =
     (case convert_dates pf event_data of
        Inl e \<Rightarrow> (Inl e, w)
      | Inr event_data \<Rightarrow> (Inr (), snd (weaviate_post (build_object event_data) w)))"

text \<open>\<^verbatim>\<open>sub in s\<close> for two strings.\<close>

fun contains :: "string \<Rightarrow> string \<Rightarrow> bool" where
  "contains sub [] = (sub = [])"
| "contains sub (c # cs) = (take (length sub) (c # cs) = sub \<or> contains sub cs)"

text \<open>
  \<^verbatim>\<open>dict(x)\<close> for a decoded JSON value \<open>x\<close>, the first statement of \<^verbatim>\<open>convert_dates\<close>. An object is
  copied. Any other value is iterated over, and each of its elements is iterated over
  in turn to give a key and a value: a value or an element that cannot be iterated
  over raises \<^verbatim>\<open>TypeError\<close>, an element that has not two items raises \<^verbatim>\<open>ValueError\<close>, and a
  key that cannot be hashed (a list or an object) raises \<^verbatim>\<open>TypeError\<close>. Iterating over a
  text gives its characters, over an object its keys.

  Keys that are equal in Python are one key of the dictionary built, which keeps the
  first of them and the last value. Numbers are equal by value (\<^verbatim>\<open>True\<close> is 1 and \<^verbatim>\<open>False\<close>
  is 0), a text equals the same text only and \<^verbatim>\<open>None\<close> itself only.
\<close>

fun py_iter :: "pyval \<Rightarrow> pyval list option" where
  "py_iter (PStr s) = Some (map (\<lambda>c. PStr [c]) s)"
| "py_iter (PList xs) = Some xs"
| "py_iter (PDict d) = Some (map (\<lambda>(k, v). PStr k) d)"
| "py_iter _ = None"

fun hashable :: "pyval \<Rightarrow> bool" where
  "hashable (PList xs) = False"
| "hashable (PDict d) = False"
| "hashable _ = True"

fun number_of :: "pyval \<Rightarrow> (int \<times> int) option" where
  "number_of (PBool b) = Some (if b then 1 else 0, 0)"
| "number_of (PInt n) = Some (n, 0)"
| "number_of (PFloat m e) = Some (m, e)"
| "number_of _ = None"

definition key_eq :: "pyval \<Rightarrow> pyval \<Rightarrow> bool" where
  "key_eq a b =
     (case (number_of a, number_of b) of
        (Some (m, e), Some (n, f)) \<Rightarrow>
          m * 2 ^ nat (e - min e f) = n * 2 ^ nat (f - min e f)
      | (None, None) \<Rightarrow> a = b
      | _ \<Rightarrow> False)"

fun setitem :: "pyval \<Rightarrow> pyval \<Rightarrow> (pyval \<times> pyval) list \<Rightarrow> (pyval \<times> pyval) list" where
  "setitem k v [] = [(k, v)]"
| "setitem k v ((k', v') # d) =
     (if key_eq k' k then (k', v) # d else (k', v') # setitem k v d)"

fun dict_of_pairs :: "pyval list \<Rightarrow> (pyval \<times> pyval) list \<Rightarrow> pyerror + (pyval \<times> pyval) list" where
  "dict_of_pairs [] d = Inr d"
| "dict_of_pairs (x # xs) d =
     (case py_iter x of
        None \<Rightarrow> Inl TypeError
      | Some [k, v] \<Rightarrow> if hashable k then dict_of_pairs xs (setitem k v d) else Inl TypeError
      | Some items \<Rightarrow> Inl ValueError)"

text \<open>
  A dictionary built from pairs may have keys that are no texts. The program names
  text keys only, and the request body is JSON, where \<^verbatim>\<open>json.dumps\<close> writes such a key as
  the text of its value (and writes two keys with one text twice). So a key that is no
  text is kept under that text from the start. For a float the text is the one of
  Python's \<^verbatim>\<open>repr\<close>, which is not modelled: mantissa and exponent stand for it.
\<close>

fun key_text :: "pyval \<Rightarrow> string" where
  "key_text (PStr s) = s"
| "key_text PNone = ''null''"
| "key_text (PBool b) = (if b then ''true'' else ''false'')"
| "key_text (PInt n) = str_int n"
| "key_text (PFloat m e) = str_int m @ ''*2**'' @ str_int e"
| "key_text _ = []"

definition py_dict :: "pyval \<Rightarrow> pyerror + pydict" where
  "py_dict x =
     (case x of
        PDict d \<Rightarrow> Inr d
      | _ \<Rightarrow> (case py_iter x of
                None \<Rightarrow> Inl TypeError
              | Some xs \<Rightarrow>
                  and_then (dict_of_pairs xs [])
                    (\<lambda>d. Inr (map (\<lambda>(k, v). (key_text k, v)) d))))"

text \<open>
  The body of the loop of \<^verbatim>\<open>main\<close> for one decoded message:
  \<^verbatim>\<open>if 'after' in event and event['after']: send_to_weaviate(event['after'])\<close>.
  The test \<^verbatim>\<open>in\<close> raises \<^verbatim>\<open>TypeError\<close> on a value that is no container, and subscripting a
  string or a list with \<^verbatim>\<open>'after'\<close> raises it too. A row image that is true goes to
  \<^verbatim>\<open>send_to_weaviate\<close>, where \<^verbatim>\<open>dict(event_data)\<close> comes first.
\<close>

definition handle_event :: "platform \<Rightarrow> pyval \<Rightarrow> weaviate \<Rightarrow> (pyerror + unit) \<times> weaviate" where
  "handle_event pf event w =
     (case event of
        PDict e \<Rightarrow>
          (case map_of e ''after'' of
             None \<Rightarrow> (Inr (), w)
           | Some after \<Rightarrow>
               if truthy after
               then (case py_dict after of
                       Inl err \<Rightarrow> (Inl err, w)
                     | Inr row \<Rightarrow> send_to_weaviate pf row w)
               else (Inr (), w))
      | PStr s \<Rightarrow> if contains ''after'' s then (Inl TypeError, w) else (Inr (), w)
      | PList xs \<Rightarrow> if PStr ''after'' \<in> set xs then (Inl TypeError, w) else (Inr (), w)
      | _ \<Rightarrow> (Inl TypeError, w))"

text \<open>
  What a consumer gets from the broker is the value of a message: bytes, or no value
  at all (a tombstone). The \<^verbatim>\<open>value_deserializer\<close> of the consumer turns it into a decoded
  JSON value while the consumer is iterated over, so an exception of the deserializer
  is raised by the \<^verbatim>\<open>for\<close> statement itself, outside of its body. \<open>Json v\<close> is the bytes of
  a JSON text that decodes to \<open>v\<close>, \<open>No_bytes\<close> the empty byte string, and \<open>Not_json\<close> bytes
  that are not UTF-8 or not a JSON text. The stream lists the values in the order in
  which the iterator decodes them.

  The deserializer of the index consumer is \<^verbatim>\<open>json.loads(m.decode('utf-8'))\<close>, where a
  tombstone has no method \<^verbatim>\<open>decode\<close>; the one of the notification consumer is
  \<^verbatim>\<open>json.loads(x.decode('utf-8')) if x else None\<close>.
\<close>

datatype message_value = Tombstone | No_bytes | Not_json | Json pyval

definition index_deserializer :: "message_value \<Rightarrow> pyerror + pyval" where
  "index_deserializer m =
     (case m of
        Tombstone \<Rightarrow> Inl AttributeError
      | No_bytes \<Rightarrow> Inl ValueError
      | Not_json \<Rightarrow> Inl ValueError
      | Json v \<Rightarrow> Inr v)"

definition email_deserializer :: "message_value \<Rightarrow> pyerror + pyval" where
  "email_deserializer x =
     (case x of
        Tombstone \<Rightarrow> Inr PNone
      | No_bytes \<Rightarrow> Inr PNone
      | Not_json \<Rightarrow> Inl ValueError
      | Json v \<Rightarrow> Inr v)"

text \<open>
  How a consumer loop stands after a finite part of the stream: it has taken every
  message and waits for the next one, or an exception has ended it. The number counts
  the messages whose processing was completed.
\<close>

datatype loop_exit = Waiting | Raised pyerror | NotConnected

fun main_loop ::
  "platform \<Rightarrow> message_value list \<Rightarrow> weaviate \<Rightarrow> nat \<Rightarrow> loop_exit \<times> nat \<times> weaviate" where
  "main_loop pf [] w handled = (Waiting, handled, w)"
| "main_loop pf (m # stream) w handled =
     (case index_deserializer m of
        Inl e \<Rightarrow> (Raised e, handled, w)
      | Inr event \<Rightarrow>
          (case handle_event pf event w of
             (Inl e, w') \<Rightarrow> (Raised e, handled, w')
           | (Inr u, w') \<Rightarrow> main_loop pf stream w' (handled + 1)))"

text \<open>\<^verbatim>\<open>main\<close>: a failure to connect is logged and ends the program; then the loop.\<close>

definition main ::
  "platform \<Rightarrow> bool \<Rightarrow> message_value list \<Rightarrow> weaviate \<Rightarrow> loop_exit \<times> nat \<times> weaviate" where
  "main pf connected stream w =
     (if connected then main_loop pf stream w 0 else (NotConnected, 0, w))"


section \<open>\<^verbatim>\<open>email_service.py\<close>\<close>

text \<open>
  A row of the read model \<^verbatim>\<open>registration_details\<close> comes from the database driver with
  Python values: \<^verbatim>\<open>None\<close> for NULL, booleans, integers, text, and \<^verbatim>\<open>date\<close> and \<^verbatim>\<open>time\<close> objects
  (whole seconds), which are always true and print as \<^verbatim>\<open>YYYY-MM-DD\<close> and \<^verbatim>\<open>HH:MM:SS\<close>.
\<close>

datatype dbval = DNull | DBool bool | DInt int | DText string | DDate nat nat nat | DTime nat nat nat

type_synonym dbrow = "(string \<times> dbval) list"

fun db_truthy :: "dbval \<Rightarrow> bool" where
  "db_truthy DNull = False"
| "db_truthy (DBool b) = b"
| "db_truthy (DInt n) = (n \<noteq> 0)"
| "db_truthy (DText s) = (s \<noteq> [])"
| "db_truthy (DDate y m d) = True"
| "db_truthy (DTime h m s) = True"

fun db_str :: "dbval \<Rightarrow> string" where
  "db_str DNull = ''None''"
| "db_str (DBool b) = (if b then ''True'' else ''False'')"
| "db_str (DInt n) = str_int n"
| "db_str (DText s) = s"
| "db_str (DDate y m d) = format_04d y @ ''-'' @ format_02d (int m) @ ''-'' @ format_02d (int d)"
| "db_str (DTime h m s) =
     format_02d (int h) @ '':'' @ format_02d (int m) @ '':'' @ format_02d (int s)"

text \<open>
  \<^verbatim>\<open>EmailService._create_email_template\<close>. The markup around the interpolated values is
  constant; the template is kept as the values it interpolates, in their order.
\<close>

record email_template =
  greeting_name :: string
  heading_title :: string
  date_time_line :: string
  location_line :: string
  category_line :: string
  organizer_line :: string
  description_block :: "string option"

definition create_email_template :: "dbval \<Rightarrow> dbrow \<Rightarrow> pyerror + email_template" where
  "create_email_template user_name event_details =
     (let event_date = dict_get event_details ''event_date'' (DText ''TBD'');
          event_time = dict_get event_details ''event_time'' (DText ''TBD'');
          formatted_datetime =
            (if event_date \<noteq> DText ''TBD'' \<and> event_time \<noteq> DText ''TBD''
             then db_str event_date @ '' at '' @ db_str event_time
             else if event_date \<noteq> DText ''TBD'' then db_str event_date
             else ''Date and time to be announced'')
      in and_then (getitem event_details ''title'') (\<lambda>title.
           and_then (if db_truthy (dict_get event_details ''description'' DNull)
                     then and_then (getitem event_details ''description'')
                            (\<lambda>d. Inr (Some (db_str d)))
                     else Inr None) (\<lambda>description.
             Inr \<lparr>greeting_name = db_str user_name,
                  heading_title = db_str title,
                  date_time_line = formatted_datetime,
                  location_line =
                    db_str (dict_get event_details ''location'' (DText ''Location TBD'')),
                  category_line =
                    db_str (dict_get event_details ''category'' (DText ''General'')),
                  organizer_line =
                    db_str (dict_get event_details ''organizer'' (DText ''Event Organizer'')),
                  description_block = description\<rparr>)))"

text \<open>The message handed to the SMTP server (the sender is configuration).\<close>

record outbound =
  msg_to :: dbval
  msg_subject :: string
  msg_html :: email_template

text \<open>
  The collaborators of the notification consumer: the read model, the failures of the
  two database calls, the rows the database finds for \<^verbatim>\<open>WHERE id = %s\<close> (it compares the
  parameter, as the driver writes it, with the integer column), the verdict of the SMTP
  server on a message, and the clock of the database.
\<close>

record services =
  registration_details_view :: "pyval \<Rightarrow> dbrow option"
  select_fails :: "pyval \<Rightarrow> bool"
  update_fails :: "pyval \<Rightarrow> bool"
  where_id :: "pyval \<Rightarrow> int \<Rightarrow> bool"
  smtp_accepts :: "outbound \<Rightarrow> bool"
  current_timestamp :: nat

text \<open>
  What the consumer acts on: the table \<^verbatim>\<open>event_registrations\<close>, each row with its integer
  \<^verbatim>\<open>id\<close> and the two columns of the idempotency flag, and the record of the read-model
  queries made, the flag updates issued and the messages the SMTP server took.
\<close>

record reg_row =
  email_sent :: bool
  email_sent_at :: "nat option"

record world =
  event_registrations :: "(int \<times> reg_row) list"
  queries :: "pyval list"
  updates :: "pyval list"
  outbox :: "outbound list"

text \<open>The subject line starts with the check-mark emoji (three bytes in UTF-8).\<close>

definition subject_prefix :: string where
  "subject_prefix = [CHR 0xE2, CHR 0x9C, CHR 0x85] @ '' Registration Confirmed: ''"

text \<open>
  \<^verbatim>\<open>EmailService.send_registration_confirmation\<close>: everything is inside \<^verbatim>\<open>try\<close>, and any
  exception gives \<^verbatim>\<open>False\<close>.
\<close>

definition send_registration_confirmation ::
  "services \<Rightarrow> dbval \<Rightarrow> dbval \<Rightarrow> dbrow \<Rightarrow> world \<Rightarrow> bool \<times> world" where
  "send_registration_confirmation svc user_email user_name event_details st =
     (case and_then (getitem event_details ''title'') (\<lambda>title.
             and_then (create_email_template user_name event_details) (\<lambda>html_body.
               Inr \<lparr>msg_to = user_email, msg_subject = subject_prefix @ db_str title,
                    msg_html = html_body\<rparr>)) of
        Inl e \<Rightarrow> (False, st)
      | Inr msg \<Rightarrow>
          if smtp_accepts svc msg then (True, st\<lparr>outbox := outbox st @ [msg]\<rparr>)
          else (False, st))"

text \<open>
  \<^verbatim>\<open>DatabaseService.mark_email_sent\<close>: the statement
  \<^verbatim>\<open>UPDATE event_registrations SET email_sent = TRUE, email_sent_at = CURRENT_TIMESTAMP WHERE id = %s\<close>;
  an exception gives \<^verbatim>\<open>False\<close> and changes no row.
\<close>

definition mark_email_sent :: "services \<Rightarrow> pyval \<Rightarrow> world \<Rightarrow> bool \<times> world" where
  "mark_email_sent svc registration_id st =
     (if update_fails svc registration_id
      then (False, st\<lparr>updates := updates st @ [registration_id]\<rparr>)
      else (True, st\<lparr>updates := updates st @ [registration_id],
                     event_registrations :=
                       map (\<lambda>(i, row). if where_id svc registration_id i
                              then (i, row\<lparr>email_sent := True,
                                           email_sent_at := Some (current_timestamp svc)\<rparr>)
                              else (i, row))
                           (event_registrations st)\<rparr>))"

text \<open>
  \<^verbatim>\<open>DatabaseService.get_registration_details\<close>: the row of the read model as a dictionary,
  \<^verbatim>\<open>None\<close> when there is no row or the query raises.
\<close>

definition get_registration_details :: "services \<Rightarrow> pyval \<Rightarrow> world \<Rightarrow> dbrow option \<times> world" where
  "get_registration_details svc registration_id st =
     (if select_fails svc registration_id then None
      else (case registration_details_view svc registration_id of
              None \<Rightarrow> None
            | Some row \<Rightarrow> if row = [] then None else Some row),
      st\<lparr>queries := queries st @ [registration_id]\<rparr>)"

text \<open>
  The part of \<^verbatim>\<open>process_registration_event\<close> between the fetch and the send: the dictionary
  \<^verbatim>\<open>event_details\<close>, the recipient and the display name. A missing column raises \<^verbatim>\<open>KeyError\<close>.
  \<open>or_TBD v\<close> is \<^verbatim>\<open>str(v) if v else 'TBD'\<close>.
\<close>

definition or_TBD :: "dbval \<Rightarrow> dbval" where
  "or_TBD v = DText (if db_truthy v then db_str v else ''TBD'')"

definition prepare_email :: "dbrow \<Rightarrow> pyerror + (dbval \<times> dbval \<times> dbrow)" where
  "prepare_email registration_details =
     and_then (getitem registration_details ''event_title'') (\<lambda>title.
     and_then (getitem registration_details ''event_description'') (\<lambda>description.
     and_then (getitem registration_details ''event_category'') (\<lambda>category.
     and_then (getitem registration_details ''event_location'') (\<lambda>location.
     and_then (getitem registration_details ''event_date'') (\<lambda>event_date.
     and_then (getitem registration_details ''event_time'') (\<lambda>event_time.
     and_then (getitem registration_details ''organizer'') (\<lambda>organizer.
     and_then (getitem registration_details ''email'') (\<lambda>user_email.
     and_then (getitem registration_details ''full_name'') (\<lambda>full_name.
     and_then (if db_truthy full_name then Inr full_name
               else getitem registration_details ''username'') (\<lambda>user_name.
       Inr (user_email, user_name,
            [(''title'', title), (''description'', description), (''category'', category),
             (''location'', location), (''event_date'', or_TBD event_date),
             (''event_time'', or_TBD event_time), (''organizer'', organizer)])))))))))))"

text \<open>The three reads at the head of \<^verbatim>\<open>process_registration_event\<close>.\<close>

definition registration_id_of :: "pydict \<Rightarrow> pyval" where
  "registration_id_of after_data = dict_get after_data ''id'' PNone"

definition status_of :: "pydict \<Rightarrow> pyval" where
  "status_of after_data = dict_get after_data ''status'' (PStr [])"

definition email_sent_of :: "pydict \<Rightarrow> pyval" where
  "email_sent_of after_data = dict_get after_data ''email_sent'' (PBool False)"

text \<open>
  The body of the \<^verbatim>\<open>try\<close> of \<^verbatim>\<open>process_registration_event\<close>, with the exception it may end in.
  A value that is true and no dictionary has no method \<^verbatim>\<open>get\<close>.
\<close>

definition process_body :: "services \<Rightarrow> pyval \<Rightarrow> world \<Rightarrow> pyerror option \<times> world" where
  "process_body svc message st =
     (case message of
        PDict after_data \<Rightarrow>
          if after_data = [] then (None, st)
          else if status_of after_data \<noteq> PStr ''registered'' \<or> truthy (email_sent_of after_data)
          then (None, st)
          else (case get_registration_details svc (registration_id_of after_data) st of
                  (None, st1) \<Rightarrow> (None, st1)
                | (Some registration_details, st1) \<Rightarrow>
                    (case prepare_email registration_details of
                       Inl e \<Rightarrow> (Some e, st1)
                     | Inr (user_email, user_name, event_details) \<Rightarrow>
                         (case send_registration_confirmation svc user_email user_name
                                 event_details st1 of
                            (True, st2) \<Rightarrow>
                              (None, snd (mark_email_sent svc (registration_id_of after_data) st2))
                          | (False, st2) \<Rightarrow> (None, st2))))
      | _ \<Rightarrow> if truthy message then (Some AttributeError, st) else (None, st))"

text \<open>\<^verbatim>\<open>process_registration_event\<close>: \<^verbatim>\<open>except Exception\<close> logs and returns.\<close>

definition process_registration_event ::
  "services \<Rightarrow> pyval \<Rightarrow> world \<Rightarrow> pyerror option \<times> world" where
  "process_registration_event svc message st =
     (case process_body svc message st of (raised, st') \<Rightarrow> (None, st'))"

text \<open>
  The loop of \<^verbatim>\<open>RegistrationEmailConsumer.run\<close>: a message with a true value is processed,
  and \<^verbatim>\<open>except Exception\<close> around the body logs and goes on to the next message. The
  handler is inside the \<^verbatim>\<open>for\<close> statement: an exception of the deserializer is not
  caught by it, passes \<^verbatim>\<open>except KeyboardInterrupt\<close> and \<^verbatim>\<open>finally\<close>, and ends \<^verbatim>\<open>run\<close>.
\<close>

fun run_loop ::
  "services \<Rightarrow> message_value list \<Rightarrow> world \<Rightarrow> nat \<Rightarrow> loop_exit \<times> nat \<times> world" where
  "run_loop svc [] st handled = (Waiting, handled, st)"
| "run_loop svc (x # stream) st handled =
     (case email_deserializer x of
        Inl e \<Rightarrow> (Raised e, handled, st)
      | Inr v \<Rightarrow>
          (case (if truthy v then process_registration_event svc v st else (None, st)) of
             (raised, st') \<Rightarrow> run_loop svc stream st' (handled + 1)))"

text \<open>
  \<^verbatim>\<open>connect_kafka\<close>: up to \<^verbatim>\<open>max_retries = 10\<close> attempts; the broker is there at an attempt or
  it is not, and when it is not there at the last attempt \<^verbatim>\<open>NoBrokersAvailable\<close> is raised
  again.
\<close>

definition connect_kafka :: "(nat \<Rightarrow> bool) \<Rightarrow> pyerror + unit" where
  "connect_kafka available =
     (if list_ex available [0..<10] then Inr () else Inl NoBrokersAvailable)"

text \<open>\<^verbatim>\<open>run\<close>: the connection, whose exception ends the program, and then the loop.\<close>

definition run ::
  "services \<Rightarrow> (nat \<Rightarrow> bool) \<Rightarrow> message_value list \<Rightarrow> world
     \<Rightarrow> loop_exit \<times> nat \<times> world" where
  "run svc available stream st =
     (case connect_kafka available of
        Inl e \<Rightarrow> (Raised e, 0, st)
      | Inr u \<Rightarrow> run_loop svc stream st 0)"

section \<open>Notions for stating the properties\<close>

text \<open>
  The three parts of \<^verbatim>\<open>convert_dates\<close> have one shape: a field that is present and holds an
  integer is replaced by a text computed from the integer, unless computing the text
  raises. \<open>convert_field\<close> is that shape, and \<open>run_steps\<close> is the run of several
  parts one after the other.
\<close>

definition convert_field :: "string \<Rightarrow> (int \<Rightarrow> pyerror + string) \<Rightarrow> pydict \<Rightarrow> pyerror + pydict" where
  "convert_field k g d =
     (case map_of d k of
        None \<Rightarrow> Inr d
      | Some v \<Rightarrow>
          (case int_value v of
             None \<Rightarrow> Inr d
           | Some n \<Rightarrow> and_then (g n) (\<lambda>s. Inr (AList.update k (PStr s) d))))"

fun run_steps :: "('a \<Rightarrow> pyerror + 'a) list \<Rightarrow> 'a \<Rightarrow> pyerror + 'a" where
  "run_steps [] d = Inr d"
| "run_steps (f # fs) d = and_then (f d) (run_steps fs)"

text \<open>The text each temporal field gets from its integer.\<close>

definition date_text :: "platform \<Rightarrow> int \<Rightarrow> pyerror + string" where
  "date_text pf days = and_then (epoch_plus_days days) (\<lambda>ymd. Inr (strftime_ymd pf ymd))"

definition field_texts :: "platform \<Rightarrow> (string \<times> (int \<Rightarrow> pyerror + string)) list" where
  "field_texts pf =
     [(''event_date'', date_text pf), (''event_time'', Inr \<circ> time_text),
      (''created_at'', fromtimestamp_text pf), (''updated_at'', fromtimestamp_text pf)]"

text \<open>
  The day counts \<^verbatim>\<open>datetime\<close> can add to the epoch: from 0001-01-01 (day \<open>-719162\<close>) to
  9999-12-31 (day \<open>2932896\<close>).
\<close>

definition in_calendar :: "int \<Rightarrow> bool" where
  "in_calendar days = (- 719162 \<le> days \<and> days \<le> 2932896)"

text \<open>The integer a field of a dictionary holds, if the field is there and holds one.\<close>

definition int_field :: "pydict \<Rightarrow> string \<Rightarrow> int option" where
  "int_field d k = (case map_of d k of None \<Rightarrow> None | Some v \<Rightarrow> int_value v)"

text \<open>
  A payload every integer temporal field of which can be rendered: the day count is in
  the calendar and the platform renders the two time stamps.
\<close>

definition renderable :: "platform \<Rightarrow> pydict \<Rightarrow> bool" where
  "renderable pf d =
     ((case int_field d ''event_date'' of None \<Rightarrow> True | Some days \<Rightarrow> in_calendar days)
      \<and> (case int_field d ''created_at'' of
            None \<Rightarrow> True | Some ms \<Rightarrow> \<not> isl (fromtimestamp_text pf ms))
      \<and> (case int_field d ''updated_at'' of
            None \<Rightarrow> True | Some ms \<Rightarrow> \<not> isl (fromtimestamp_text pf ms)))"

text \<open>An index that is reachable, accepts every body and holds nothing yet.\<close>

definition empty_index :: weaviate where
  "empty_index = \<lparr>online = True, validates = (\<lambda>body. True), objects = [], generated = 0\<rparr>"

text \<open>Two and four decimal digits of a number, for stating what a rendering looks like.\<close>

definition two_digits :: "int \<Rightarrow> string" where
  "two_digits i = [digit_char (nat (i div 10)), digit_char (nat (i mod 10))]"

definition four_digits :: "int \<Rightarrow> string" where
  "four_digits i =
     [digit_char (nat (i div 1000)), digit_char (nat (i div 100 mod 10)),
      digit_char (nat (i div 10 mod 10)), digit_char (nat (i mod 10))]"


text \<open>
  A message the notification consumer filters out: a record whose status is not
  \<^verbatim>\<open>'registered'\<close> or whose \<^verbatim>\<open>email_sent\<close> is true, and also an empty record and a value that
  is no record at all.
\<close>

definition filtered_out :: "pyval \<Rightarrow> bool" where
  "filtered_out message =
     (case message of
        PDict after_data \<Rightarrow>
          after_data = [] \<or> status_of after_data \<noteq> PStr ''registered''
          \<or> truthy (email_sent_of after_data)
      | _ \<Rightarrow> True)"

text \<open>
  Collaborators and a table for concrete runs: one registration, everything works, and
  the database finds a row for its number and for the decimal text of its number.
\<close>

definition demo_row :: dbrow where
  "demo_row =
     [(''registration_id'', DInt 1), (''event_title'', DText ''Launch''),
      (''event_description'', DNull), (''event_category'', DText ''Tech''),
      (''event_location'', DText ''Cairo''), (''event_date'', DDate 2024 10 4),
      (''event_time'', DTime 9 30 0), (''organizer'', DText ''Qeema''),
      (''email'', DText ''user@example.org''), (''full_name'', DText ''''),
      (''username'', DText ''mona'')]"

definition demo_services :: services where
  "demo_services =
     \<lparr>registration_details_view =
        (\<lambda>i. if i = PInt 1 \<or> i = PStr ''1'' then Some demo_row else None),
      select_fails = (\<lambda>i. False),
      update_fails = (\<lambda>i. False),
      where_id = (\<lambda>v i. v = PInt i \<or> v = PStr (str_int i)),
      smtp_accepts = (\<lambda>msg. True),
      current_timestamp = 1000\<rparr>"

text \<open>The same collaborators with a database that fails every update of the flag.\<close>

definition update_failing_services :: services where
  "update_failing_services = demo_services\<lparr>update_fails := (\<lambda>i. True)\<rparr>"

definition demo_world :: world where
  "demo_world =
     \<lparr>event_registrations = [(1, \<lparr>email_sent = False, email_sent_at = None\<rparr>)],
      queries = [], updates = [], outbox = []\<rparr>"


section \<open>The calendar arithmetic is right\<close>

text \<open>
  Month and day from the day of the year: the result is a month from 1 to 12 and a day
  of that month, and the days before the month plus the day give back the day of the
  year.
\<close>

lemma month_day_ok:
  assumes "0 \<le> n" and "n < 365 \<or> (leap \<and> n = 365)"
  shows "case month_day leap n of (m, d) \<Rightarrow> 1 \<le> m \<and> m \<le> 12 \<and> 1 \<le> d
      \<and> d \<le> DAYS_IN_MONTH ! nat m + (if m = 2 \<and> leap then 1 else 0)
      \<and> DAYS_BEFORE_MONTH ! nat m + (if m > 2 \<and> leap then 1 else 0) + d = n + 1"
proof -
  define k where "k = (n + 50) div 32"
  have lo: "32 * k \<le> n + 50" and hi: "n + 50 < 32 * k + 32"
    unfolding k_def by linarith+
  have "1 \<le> k" "k \<le> 12" using assms lo hi by linarith+
  then have "k = 1 \<or> k = 2 \<or> k = 3 \<or> k = 4 \<or> k = 5 \<or> k = 6
      \<or> k = 7 \<or> k = 8 \<or> k = 9 \<or> k = 10 \<or> k = 11 \<or> k = 12"
    by arith
  then consider "k = 1" | "k = 2" | "k = 3" | "k = 4" | "k = 5" | "k = 6"
    | "k = 7" | "k = 8" | "k = 9" | "k = 10" | "k = 11" | "k = 12"
    by blast
  then show ?thesis
  proof cases
    case 1 then show ?thesis using assms lo hi k_def
      by (simp add: month_day_def Let_def DAYS_IN_MONTH_def DAYS_BEFORE_MONTH_def)
  next
    case 2 then show ?thesis using assms lo hi k_def
      by (simp add: month_day_def Let_def DAYS_IN_MONTH_def DAYS_BEFORE_MONTH_def)
  next
    case 3 then show ?thesis using assms lo hi k_def
      by (simp add: month_day_def Let_def DAYS_IN_MONTH_def DAYS_BEFORE_MONTH_def)
  next
    case 4 then show ?thesis using assms lo hi k_def
      by (simp add: month_day_def Let_def DAYS_IN_MONTH_def DAYS_BEFORE_MONTH_def)
  next
    case 5 then show ?thesis using assms lo hi k_def
      by (simp add: month_day_def Let_def DAYS_IN_MONTH_def DAYS_BEFORE_MONTH_def)
  next
    case 6 then show ?thesis using assms lo hi k_def
      by (simp add: month_day_def Let_def DAYS_IN_MONTH_def DAYS_BEFORE_MONTH_def)
  next
    case 7 then show ?thesis using assms lo hi k_def
      by (simp add: month_day_def Let_def DAYS_IN_MONTH_def DAYS_BEFORE_MONTH_def)
  next
    case 8 then show ?thesis using assms lo hi k_def
      by (simp add: month_day_def Let_def DAYS_IN_MONTH_def DAYS_BEFORE_MONTH_def)
  next
    case 9 then show ?thesis using assms lo hi k_def
      by (simp add: month_day_def Let_def DAYS_IN_MONTH_def DAYS_BEFORE_MONTH_def)
  next
    case 10 then show ?thesis using assms lo hi k_def
      by (simp add: month_day_def Let_def DAYS_IN_MONTH_def DAYS_BEFORE_MONTH_def)
  next
    case 11 then show ?thesis using assms lo hi k_def
      by (simp add: month_day_def Let_def DAYS_IN_MONTH_def DAYS_BEFORE_MONTH_def)
  next
    case 12 then show ?thesis using assms lo hi k_def
      by (auto simp add: month_day_def Let_def DAYS_IN_MONTH_def DAYS_BEFORE_MONTH_def)
  qed
qed

text \<open>
  \<^verbatim>\<open>_ord2ymd\<close> inverts \<^verbatim>\<open>_ymd2ord\<close>: the date it gives for an ordinal is a date of the
  calendar whose ordinal is the one given.
\<close>

lemma ord2ymd_roundtrip:
  "case ord2ymd ordinal of (y, m, d) \<Rightarrow>
     1 \<le> m \<and> m \<le> 12 \<and> 1 \<le> d \<and> d \<le> days_in_month y m \<and> ymd2ord y m d = ordinal"
proof -
  define n where "n = ordinal - 1"
  define a where "a = n div 146097"
  define r1 where "r1 = n mod 146097"
  define b where "b = r1 div 36524"
  define r2 where "r2 = r1 mod 36524"
  define c where "c = r2 div 1461"
  define r3 where "r3 = r2 mod 1461"
  define e where "e = r3 div 365"
  define r4 where "r4 = r3 mod 365"
  define Y where "Y = 400 * a + 100 * b + 4 * c + e"
  have n_eq: "n = 146097 * a + r1" and r1: "0 \<le> r1" "r1 < 146097"
    unfolding a_def r1_def by simp_all
  have r1_eq: "r1 = 36524 * b + r2" and r2: "0 \<le> r2" "r2 < 36524"
    unfolding b_def r2_def by simp_all
  have r2_eq: "r2 = 1461 * c + r3" and r3: "0 \<le> r3" "r3 < 1461"
    unfolding c_def r3_def by simp_all
  have r3_eq: "r3 = 365 * e + r4" and r4: "0 \<le> r4" "r4 < 365"
    unfolding e_def r4_def by simp_all
  have b_bd: "0 \<le> b" "b \<le> 4" using r1 r1_eq r2 by linarith+
  have c_bd: "0 \<le> c" "c \<le> 24" using r2 r2_eq r3 by linarith+
  have e_bd: "0 \<le> e" "e \<le> 4" using r3 r3_eq r4 by linarith+
  have unf: "ord2ymd ordinal =
      (if e = 4 \<or> b = 4 then (Y, 12, 31)
       else (let (month, day) = month_day (e = 3 \<and> (c \<noteq> 24 \<or> b = 3)) r4
             in (Y + 1, month, day)))"
    by (simp add: ord2ymd_def Let_def n_def a_def r1_def b_def r2_def c_def r3_def
        e_def r4_def Y_def algebra_simps)
  show ?thesis
  proof (cases "e = 4 \<or> b = 4")
    case False
    then have b3: "b \<le> 3" and e3: "e \<le> 3" using b_bd e_bd by linarith+
    have d4: "Y div 4 = 100 * a + 25 * b + c"
      by (rule int_div_pos_eq [where r = e]) (use e_bd e3 in \<open>simp_all add: Y_def\<close>)
    have d100: "Y div 100 = 4 * a + b"
      by (rule int_div_pos_eq [where r = "4 * c + e"])
         (use e_bd e3 c_bd in \<open>simp_all add: Y_def\<close>)
    have d400: "Y div 400 = a"
      by (rule int_div_pos_eq [where r = "100 * b + 4 * c + e"])
         (use e_bd e3 c_bd b_bd b3 in \<open>simp_all add: Y_def\<close>)
    have dby: "days_before_year (Y + 1) = 146097 * a + 36524 * b + 1461 * c + 365 * e"
      by (simp add: days_before_year_def Let_def d4 d100 d400) (simp add: Y_def)
    have leap: "is_leap (Y + 1) = (e = 3 \<and> (c \<noteq> 24 \<or> b = 3))"
    proof (cases "e = 3")
      case e: True
      have m4: "(Y + 1) mod 4 = 0"
        by (rule int_mod_pos_eq [where q = "100 * a + 25 * b + c + 1"])
           (simp_all add: Y_def e)
      show ?thesis
      proof (cases "c = 24")
        case c: True
        have m100: "(Y + 1) mod 100 = 0"
          by (rule int_mod_pos_eq [where q = "4 * a + b + 1"]) (simp_all add: Y_def e c)
        have m400: "(Y + 1) mod 400 = (if b = 3 then 0 else 100 * (b + 1))"
        proof (cases "b = 3")
          case True
          have "(Y + 1) mod 400 = 0"
            by (rule int_mod_pos_eq [where q = "a + 1"]) (simp_all add: Y_def e c True)
          then show ?thesis using True by simp
        next
          case False
          have "(Y + 1) mod 400 = 100 * (b + 1)"
            by (rule int_mod_pos_eq [where q = a])
               (use b_bd b3 False in \<open>simp_all add: Y_def e c\<close>)
          then show ?thesis using False by simp
        qed
        show ?thesis using b_bd by (simp add: is_leap_def m4 m100 m400 e c)
      next
        case c: False
        have "(Y + 1) mod 100 = 4 * c + 4"
          by (rule int_mod_pos_eq [where q = "4 * a + b"])
             (use c_bd c in \<open>simp_all add: Y_def e\<close>)
        then show ?thesis using c_bd by (simp add: is_leap_def m4 e c)
      qed
    next
      case e: False
      have "(Y + 1) mod 4 = e + 1"
        by (rule int_mod_pos_eq [where q = "100 * a + 25 * b + c"])
           (use e_bd e3 e in \<open>simp_all add: Y_def\<close>)
      then show ?thesis using e_bd by (simp add: is_leap_def e)
    qed
    obtain m d where md: "month_day (e = 3 \<and> (c \<noteq> 24 \<or> b = 3)) r4 = (m, d)"
      by (cases "month_day (e = 3 \<and> (c \<noteq> 24 \<or> b = 3)) r4")
    have ok: "1 \<le> m \<and> m \<le> 12 \<and> 1 \<le> d
      \<and> d \<le> DAYS_IN_MONTH ! nat m + (if m = 2 \<and> (e = 3 \<and> (c \<noteq> 24 \<or> b = 3)) then 1 else 0)
      \<and> DAYS_BEFORE_MONTH ! nat m + (if m > 2 \<and> (e = 3 \<and> (c \<noteq> 24 \<or> b = 3)) then 1 else 0) + d
          = r4 + 1"
      using month_day_ok [of r4 "e = 3 \<and> (c \<noteq> 24 \<or> b = 3)"] r4 md by simp
    have res: "ord2ymd ordinal = (Y + 1, m, d)"
      using False md by (simp add: unf)
    have dim: "d \<le> days_in_month (Y + 1) m"
    proof (cases "m = 2 \<and> is_leap (Y + 1)")
      case True
      then show ?thesis using ok by (simp add: days_in_month_def leap DAYS_IN_MONTH_def)
    next
      case False
      then show ?thesis using ok by (auto simp add: days_in_month_def leap)
    qed
    have "ymd2ord (Y + 1) m d = ordinal"
      using ok n_eq r1_eq r2_eq r3_eq
      by (simp add: ymd2ord_def days_before_month_def dby leap n_def split: if_splits)
    then show ?thesis using ok dim by (simp add: res)
  next
    case True
    have res: "ord2ymd ordinal = (Y, 12, 31)" using True by (simp add: unf)
    show ?thesis
    proof (cases "b = 4")
      case b: True
      have "r2 = 0" using r1 r1_eq r2 b by linarith
      then have c0: "c = 0" and e0: "e = 0" and r40: "r4 = 0"
        using r2_eq r3 c_bd r3_eq r4 e_bd by linarith+
      have Y: "Y = 400 * (a + 1)" by (simp add: Y_def b c0 e0)
      have d4: "(Y - 1) div 4 = 100 * a + 99"
        by (rule int_div_pos_eq [where r = 3]) (simp_all add: Y)
      have d100: "(Y - 1) div 100 = 4 * a + 3"
        by (rule int_div_pos_eq [where r = 99]) (simp_all add: Y)
      have d400: "(Y - 1) div 400 = a"
        by (rule int_div_pos_eq [where r = 399]) (simp_all add: Y)
      have lp: "is_leap Y" by (simp add: is_leap_def Y)
      have "ymd2ord Y 12 31 = ordinal"
        using n_eq r1_eq \<open>r2 = 0\<close>
        by (simp add: ymd2ord_def days_before_month_def days_before_year_def Let_def
            d4 d100 d400 lp DAYS_BEFORE_MONTH_def n_def b) (simp add: Y)
      then show ?thesis by (simp add: res days_in_month_def DAYS_IN_MONTH_def)
    next
      case b: False
      then have e: "e = 4" and b3: "b \<le> 3" using True b_bd by linarith+
      have r40: "r4 = 0" using r3 r3_eq r4 e by linarith
      have c23: "c \<le> 23" using r2 r2_eq r3_eq r4 e by linarith
      have d4: "(Y - 1) div 4 = 100 * a + 25 * b + c"
        by (rule int_div_pos_eq [where r = 3]) (simp_all add: Y_def e)
      have d100: "(Y - 1) div 100 = 4 * a + b"
        by (rule int_div_pos_eq [where r = "4 * c + 3"])
           (use c_bd in \<open>simp_all add: Y_def e\<close>)
      have d400: "(Y - 1) div 400 = a"
        by (rule int_div_pos_eq [where r = "100 * b + 4 * c + 3"])
           (use c_bd b_bd b3 in \<open>simp_all add: Y_def e\<close>)
      have m4: "Y mod 4 = 0"
        by (rule int_mod_pos_eq [where q = "100 * a + 25 * b + c + 1"])
           (simp_all add: Y_def e)
      have m100: "Y mod 100 = 4 * c + 4"
        by (rule int_mod_pos_eq [where q = "4 * a + b"])
           (use c_bd c23 in \<open>simp_all add: Y_def e\<close>)
      have lp: "is_leap Y" using c_bd by (simp add: is_leap_def m4 m100)
      have "ymd2ord Y 12 31 = ordinal"
        using n_eq r1_eq r2_eq r3_eq r40
        by (simp add: ymd2ord_def days_before_month_def days_before_year_def Let_def
            d4 d100 d400 lp DAYS_BEFORE_MONTH_def n_def e) (simp add: Y_def e)
      then show ?thesis by (simp add: res days_in_month_def DAYS_IN_MONTH_def)
    qed
  qed
qed

text \<open>A year has 365 days, a leap year 366; so the days before a year grow with the year.\<close>

lemma div_step:
  fixes y k :: int
  assumes "0 < k"
  shows "y div k = (y - 1) div k + (if y mod k = 0 then 1 else 0)"
proof -
  define q where "q = (y - 1) div k"
  define r where "r = (y - 1) mod k"
  have y: "y = k * q + r + 1" and r: "0 \<le> r" "r < k"
    using assms by (simp_all add: q_def r_def)
  show ?thesis
  proof (cases "r + 1 = k")
    case True
    have "y = k * (q + 1) + 0" using y True by (simp add: algebra_simps)
    then have "y div k = q + 1" "y mod k = 0"
      using assms int_div_pos_eq [of y k "q + 1" 0] int_mod_pos_eq [of y k "q + 1" 0]
      by simp_all
    then show ?thesis by (simp add: q_def)
  next
    case False
    have "y = k * q + (r + 1)" using y by simp
    moreover have "0 \<le> r + 1" "r + 1 < k" using r False by linarith+
    ultimately have "y div k = q" "y mod k = r + 1"
      using int_div_pos_eq [of y k q "r + 1"] int_mod_pos_eq [of y k q "r + 1"] by simp_all
    then show ?thesis using r by (simp add: q_def)
  qed
qed

lemma days_before_year_Suc:
  "days_before_year (y + 1) = days_before_year y + (if is_leap y then 366 else 365)"
proof -
  have a: "y mod 400 = 0 \<Longrightarrow> y mod 100 = 0"
    using dvd_trans [of 100 400 y] by (simp add: mod_eq_0_iff_dvd)
  have b: "y mod 100 = 0 \<Longrightarrow> y mod 4 = 0"
    using dvd_trans [of 4 100 y] by (simp add: mod_eq_0_iff_dvd)
  define q4 where "q4 = (y - 1) div 4"
  define q100 where "q100 = (y - 1) div 100"
  define q400 where "q400 = (y - 1) div 400"
  have d4: "y div 4 = q4 + (if y mod 4 = 0 then 1 else 0)"
    unfolding q4_def by (rule div_step) simp
  have d100: "y div 100 = q100 + (if y mod 100 = 0 then 1 else 0)"
    unfolding q100_def by (rule div_step) simp
  have d400: "y div 400 = q400 + (if y mod 400 = 0 then 1 else 0)"
    unfolding q400_def by (rule div_step) simp
  have l: "days_before_year (y + 1) = y * 365 + y div 4 - y div 100 + y div 400"
    by (simp add: days_before_year_def)
  have r: "days_before_year y = (y - 1) * 365 + q4 - q100 + q400"
    by (simp add: days_before_year_def Let_def q4_def q100_def q400_def)
  show ?thesis
  proof (cases "y mod 4 = 0")
    case False
    then have "y mod 100 \<noteq> 0 \<and> y mod 400 \<noteq> 0" using a b by auto
    then show ?thesis using False unfolding l r d4 d100 d400 is_leap_def
      by (simp add: algebra_simps)
  next
    case m4: True
    show ?thesis
    proof (cases "y mod 100 = 0")
      case False
      then have "y mod 400 \<noteq> 0" using a by auto
      then show ?thesis using False m4 unfolding l r d4 d100 d400 is_leap_def
        by (simp add: algebra_simps)
    next
      case True
      then show ?thesis using m4 unfolding l r d4 d100 d400 is_leap_def
        by (simp add: algebra_simps)
    qed
  qed
qed

lemma days_before_year_mono: "y \<le> y' \<Longrightarrow> days_before_year y \<le> days_before_year y'"
proof (induction y' rule: int_ge_induct)
  case base
  show ?case by simp
next
  case (step i)
  then show ?case by (simp add: days_before_year_Suc)
qed

lemma day_of_year_bounds:
  assumes "valid_date y m d"
  shows "1 \<le> days_before_month y m + d"
    and "days_before_month y m + d \<le> (if is_leap y then 366 else 365)"
proof -
  have "m = 1 \<or> m = 2 \<or> m = 3 \<or> m = 4 \<or> m = 5 \<or> m = 6
      \<or> m = 7 \<or> m = 8 \<or> m = 9 \<or> m = 10 \<or> m = 11 \<or> m = 12"
    using assms unfolding valid_date_def by arith
  then show "1 \<le> days_before_month y m + d"
    and "days_before_month y m + d \<le> (if is_leap y then 366 else 365)"
    using assms unfolding valid_date_def
    by (auto simp add: days_before_month_def days_in_month_def DAYS_BEFORE_MONTH_def
        DAYS_IN_MONTH_def split: if_splits)
qed

lemma ymd2ord_year_bounds:
  assumes "valid_date y m d"
  shows "days_before_year y < ymd2ord y m d"
    and "ymd2ord y m d \<le> days_before_year (y + 1)"
  using day_of_year_bounds [OF assms]
  by (simp_all add: ymd2ord_def days_before_year_Suc split: if_splits)

lemma ymd2ord_year_ge:
  assumes "valid_date y m d" and "days_before_year y0 < ymd2ord y m d"
  shows "y0 \<le> y"
proof (rule ccontr)
  assume "\<not> y0 \<le> y"
  then have "y + 1 \<le> y0" by simp
  then have "days_before_year (y + 1) \<le> days_before_year y0" by (rule days_before_year_mono)
  then show False using ymd2ord_year_bounds(2) [OF assms(1)] assms(2) by linarith
qed

lemma ymd2ord_year_le:
  assumes "valid_date y m d" and "ymd2ord y m d \<le> days_before_year (y1 + 1)"
  shows "y \<le> y1"
proof (rule ccontr)
  assume "\<not> y \<le> y1"
  then have "y1 + 1 \<le> y" by simp
  then have "days_before_year (y1 + 1) \<le> days_before_year y" by (rule days_before_year_mono)
  then show False using ymd2ord_year_bounds(1) [OF assms(1)] assms(2) by linarith
qed

lemma epoch_ordinal: "ymd2ord 1970 1 1 = 719163"
  by (simp add: ymd2ord_def days_before_year_def days_before_month_def
      DAYS_BEFORE_MONTH_def)

text \<open>
  Adding days to the epoch: inside the calendar the result is the date of the calendar
  that lies that many days after 1970-01-01, in a year from 1 to 9999; outside it the
  addition raises.
\<close>

lemma epoch_plus_days_in_calendar:
  assumes "in_calendar days"
  shows "\<exists>y m d. epoch_plus_days days = Inr (y, m, d) \<and> valid_date y m d
            \<and> 1 \<le> y \<and> y \<le> 9999 \<and> ymd2ord y m d - ymd2ord 1970 1 1 = days"
proof -
  obtain y m d where o: "ord2ymd (719163 + days) = (y, m, d)"
    by (cases "ord2ymd (719163 + days)")
  have rt: "valid_date y m d" "ymd2ord y m d = 719163 + days"
    using ord2ymd_roundtrip [of "719163 + days"] o by (simp_all add: valid_date_def)
  have e: "epoch_plus_days days = Inr (y, m, d)"
    using assms o
    by (auto simp add: epoch_plus_days_def in_calendar_def epoch_ordinal MAXORDINAL_def)
  have "days_before_year 1 < ymd2ord y m d"
    using assms rt(2) by (simp add: days_before_year_def in_calendar_def)
  then have y1: "1 \<le> y" by (rule ymd2ord_year_ge [OF rt(1)])
  have "ymd2ord y m d \<le> days_before_year (9999 + 1)"
    using assms rt(2) by (simp add: days_before_year_def in_calendar_def)
  then have y2: "y \<le> 9999" by (rule ymd2ord_year_le [OF rt(1)])
  show ?thesis using e rt y1 y2 by (simp add: epoch_ordinal)
qed

lemma epoch_plus_days_outside:
  assumes "\<not> in_calendar days"
  shows "epoch_plus_days days = Inl OverflowError"
  using assms by (auto simp add: epoch_plus_days_def in_calendar_def epoch_ordinal MAXORDINAL_def)


section \<open>The converter, field by field\<close>


lemma and_then_simps [simp]:
  "and_then (Inl e) f = Inl e" "and_then (Inr x) f = f x"
  by (simp_all add: and_then_def)

lemma and_then_Inr_iff: "and_then r f = Inr y \<longleftrightarrow> (\<exists>x. r = Inr x \<and> f x = Inr y)"
  by (cases r) simp_all

lemma convert_event_date_shape:
  "convert_event_date pf d = convert_field ''event_date'' (date_text pf) d"
  by (simp add: convert_event_date_def convert_field_def date_text_def and_then_def
      split: option.splits sum.splits)

lemma convert_event_time_shape:
  "Inr (convert_event_time d) = convert_field ''event_time'' (Inr \<circ> time_text) d"
  by (simp add: convert_event_time_def convert_field_def split: option.splits)

lemma convert_timestamp_shape:
  "convert_timestamp pf k d = convert_field k (fromtimestamp_text pf) d"
  by (simp add: convert_timestamp_def convert_field_def)

lemma convert_timestamps_steps:
  "convert_timestamps pf ks d
     = run_steps (map (\<lambda>k. convert_field k (fromtimestamp_text pf)) ks) d"
proof (induction ks arbitrary: d)
  case Nil
  show ?case by simp
next
  case (Cons k ks)
  show ?case
    by (cases "convert_field k (fromtimestamp_text pf) d")
       (simp_all add: convert_timestamp_shape Cons.IH)
qed

lemma convert_dates_steps:
  "convert_dates pf d = run_steps (map (\<lambda>(k, g). convert_field k g) (field_texts pf)) d"
proof (cases "convert_field ''event_date'' (date_text pf) d")
  case (Inl e)
  then show ?thesis
    by (simp add: convert_dates_def field_texts_def convert_event_date_shape)
next
  case (Inr d1)
  have "convert_dates pf d = convert_timestamps pf [''created_at'', ''updated_at'']
          (convert_event_time d1)"
    using Inr by (simp add: convert_dates_def convert_event_date_shape)
  also have "\<dots> = run_steps (map (\<lambda>k. convert_field k (fromtimestamp_text pf))
          [''created_at'', ''updated_at'']) (convert_event_time d1)"
    by (rule convert_timestamps_steps)
  finally show ?thesis
    using Inr convert_event_time_shape [of d1, symmetric]
    by (simp add: field_texts_def)
qed

lemma convert_field_none: "int_field d k = None \<Longrightarrow> convert_field k g d = Inr d"
  by (simp add: convert_field_def int_field_def split: option.splits)

lemma convert_field_some:
  "int_field d k = Some n \<Longrightarrow>
   convert_field k g d = and_then (g n) (\<lambda>s. Inr (AList.update k (PStr s) d))"
  by (auto simp add: convert_field_def int_field_def split: option.splits)

lemma convert_field_cases:
  assumes "convert_field k g d = Inr d'"
  shows "(int_field d k = None \<and> d' = d)
       \<or> (\<exists>n s. int_field d k = Some n \<and> g n = Inr s \<and> d' = AList.update k (PStr s) d)"
proof (cases "int_field d k")
  case None
  then show ?thesis using assms by (simp add: convert_field_none)
next
  case (Some n)
  then show ?thesis using assms by (auto simp add: convert_field_some and_then_Inr_iff)
qed

lemma map_fst_update_present:
  "map_of d k = Some v \<Longrightarrow> map fst (AList.update k x d) = map fst d"
  by (induction d) (auto split: if_splits)

lemma int_field_present: "int_field d k = Some n \<Longrightarrow> \<exists>v. map_of d k = Some v"
  by (simp add: int_field_def split: option.splits)

lemma convert_field_other:
  "convert_field k g d = Inr d' \<Longrightarrow> k' \<noteq> k \<Longrightarrow> map_of d' k' = map_of d k'"
  by (auto dest!: convert_field_cases simp add: update_conv')

lemma convert_field_keys: "convert_field k g d = Inr d' \<Longrightarrow> map fst d' = map fst d"
  by (auto dest!: convert_field_cases int_field_present simp add: map_fst_update_present)

lemma convert_field_int_field:
  "convert_field k g d = Inr d' \<Longrightarrow>
   int_field d' k' = (if k' = k then None else int_field d k')"
  by (auto dest!: convert_field_cases simp add: int_field_def update_conv')

lemma steps_other:
  "run_steps (map (\<lambda>(k, g). convert_field k g) kgs) d = Inr d' \<Longrightarrow> k' \<notin> fst ` set kgs \<Longrightarrow>
   map_of d' k' = map_of d k'"
proof (induction kgs arbitrary: d)
  case Nil
  then show ?case by simp
next
  case (Cons kg kgs)
  obtain k g where kg: "kg = (k, g)" by (cases kg)
  from Cons.prems(1) obtain d1 where
    s: "convert_field k g d = Inr d1"
    and r: "run_steps (map (\<lambda>(k, g). convert_field k g) kgs) d1 = Inr d'"
    by (auto simp add: kg and_then_Inr_iff)
  have "map_of d' k' = map_of d1 k'" using Cons.IH [OF r] Cons.prems(2) by simp
  moreover have "map_of d1 k' = map_of d k'"
    using convert_field_other [OF s] Cons.prems(2) by (auto simp add: kg)
  ultimately show ?case by simp
qed

lemma steps_keys:
  "run_steps (map (\<lambda>(k, g). convert_field k g) kgs) d = Inr d' \<Longrightarrow> map fst d' = map fst d"
proof (induction kgs arbitrary: d)
  case Nil
  then show ?case by simp
next
  case (Cons kg kgs)
  obtain k g where kg: "kg = (k, g)" by (cases kg)
  from Cons.prems(1) obtain d1 where
    s: "convert_field k g d = Inr d1"
    and r: "run_steps (map (\<lambda>(k, g). convert_field k g) kgs) d1 = Inr d'"
    by (auto simp add: kg and_then_Inr_iff)
  show ?case using Cons.IH [OF r] convert_field_keys [OF s] by simp
qed

lemma steps_int_field:
  "run_steps (map (\<lambda>(k, g). convert_field k g) kgs) d = Inr d' \<Longrightarrow>
   int_field d' k' = (if k' \<in> fst ` set kgs then None else int_field d k')"
proof (induction kgs arbitrary: d)
  case Nil
  then show ?case by simp
next
  case (Cons kg kgs)
  obtain k g where kg: "kg = (k, g)" by (cases kg)
  from Cons.prems(1) obtain d1 where
    s: "convert_field k g d = Inr d1"
    and r: "run_steps (map (\<lambda>(k, g). convert_field k g) kgs) d1 = Inr d'"
    by (auto simp add: kg and_then_Inr_iff)
  show ?case using Cons.IH [OF r] convert_field_int_field [OF s, of k']
    by (auto simp add: kg)
qed

lemma steps_identity:
  "\<forall>k\<in>fst ` set kgs. int_field d k = None \<Longrightarrow>
   run_steps (map (\<lambda>(k, g). convert_field k g) kgs) d = Inr d"
  by (induction kgs) (auto simp add: convert_field_none)

lemma steps_raw:
  "run_steps (map (\<lambda>(k, g). convert_field k g) kgs) d = Inr d' \<Longrightarrow> int_field d k' = None \<Longrightarrow>
   map_of d' k' = map_of d k'"
proof (induction kgs arbitrary: d)
  case Nil
  then show ?case by simp
next
  case (Cons kg kgs)
  obtain k g where kg: "kg = (k, g)" by (cases kg)
  from Cons.prems(1) obtain d1 where
    s: "convert_field k g d = Inr d1"
    and r: "run_steps (map (\<lambda>(k, g). convert_field k g) kgs) d1 = Inr d'"
    by (auto simp add: kg and_then_Inr_iff)
  have i: "int_field d1 k' = None"
    using convert_field_int_field [OF s, of k'] Cons.prems(2) by simp
  have "map_of d1 k' = map_of d k'"
  proof (cases "k' = k")
    case True
    then show ?thesis using s Cons.prems(2) by (simp add: convert_field_none)
  next
    case False
    then show ?thesis using convert_field_other [OF s] by simp
  qed
  then show ?case using Cons.IH [OF r i] by simp
qed

lemma steps_value:
  assumes "distinct (map fst kgs)" and "(k, g) \<in> set kgs"
    and "run_steps (map (\<lambda>(k, g). convert_field k g) kgs) d = Inr d'"
    and "int_field d k = Some n"
  shows "\<exists>s. g n = Inr s \<and> map_of d' k = Some (PStr s)"
  using assms
proof (induction kgs arbitrary: d)
  case Nil
  then show ?case by simp
next
  case (Cons kg kgs)
  obtain k1 g1 where kg: "kg = (k1, g1)" by (cases kg)
  from Cons.prems(3) obtain d1 where
    s: "convert_field k1 g1 d = Inr d1"
    and r: "run_steps (map (\<lambda>(k, g). convert_field k g) kgs) d1 = Inr d'"
    by (auto simp add: kg and_then_Inr_iff)
  show ?case
  proof (cases "(k, g) = (k1, g1)")
    case True
    then have "k \<notin> fst ` set kgs" using Cons.prems(1) by (auto simp add: kg)
    then have "map_of d' k = map_of d1 k" using steps_other [OF r] by simp
    moreover obtain t where "g n = Inr t" "d1 = AList.update k (PStr t) d"
      using convert_field_cases [OF s] Cons.prems(4) True by auto
    ultimately show ?thesis by (simp add: update_conv')
  next
    case False
    then have in_rest: "(k, g) \<in> set kgs" using Cons.prems(2) by (auto simp add: kg)
    then have "k \<noteq> k1" using Cons.prems(1) by (force simp add: kg)
    then have "int_field d1 k = Some n"
      using convert_field_int_field [OF s, of k] Cons.prems(4) by simp
    then show ?thesis using Cons.IH [OF _ in_rest r] Cons.prems(1) by simp
  qed
qed

lemma steps_defined:
  assumes "distinct (map fst kgs)"
  shows "(\<not> isl (run_steps (map (\<lambda>(k, g). convert_field k g) kgs) d))
       = (\<forall>(k, g)\<in>set kgs. \<forall>n. int_field d k = Some n \<longrightarrow> \<not> isl (g n))"
  using assms
proof (induction kgs arbitrary: d)
  case Nil
  then show ?case by simp
next
  case (Cons kg kgs)
  obtain k1 g1 where kg: "kg = (k1, g1)" by (cases kg)
  have d: "distinct (map fst kgs)" and fresh: "k1 \<notin> fst ` set kgs"
    using Cons.prems by (auto simp add: kg)
  show ?case
  proof (cases "convert_field k1 g1 d")
    case (Inl e)
    then obtain n where "int_field d k1 = Some n" "isl (g1 n)"
      by (cases "int_field d k1")
         (auto simp add: convert_field_none convert_field_some and_then_def split: sum.splits)
    then show ?thesis using Inl by (auto simp add: kg)
  next
    case (Inr d1)
    have same: "\<And>k. k \<in> fst ` set kgs \<Longrightarrow> int_field d1 k = int_field d k"
      using convert_field_int_field [OF Inr] fresh by auto
    have first: "\<forall>n. int_field d k1 = Some n \<longrightarrow> \<not> isl (g1 n)"
      using convert_field_cases [OF Inr] by auto
    have "(\<not> isl (run_steps (map (\<lambda>(k, g). convert_field k g) kgs) d1))
        = (\<forall>(k, g)\<in>set kgs. \<forall>n. int_field d1 k = Some n \<longrightarrow> \<not> isl (g n))"
      by (rule Cons.IH [OF d])
    also have "\<dots> = (\<forall>(k, g)\<in>set kgs. \<forall>n. int_field d k = Some n \<longrightarrow> \<not> isl (g n))"
      using same by (force simp add: image_iff)
    finally show ?thesis using Inr first by (simp add: kg)
  qed
qed


section \<open>Digits, and when the converter returns\<close>


lemma dec_nat_1: "n < 10 \<Longrightarrow> dec_nat n = [digit_char n]"
  by (simp add: dec_nat.simps)

lemma dec_nat_2:
  "10 \<le> n \<Longrightarrow> n < 100 \<Longrightarrow> dec_nat n = [digit_char (n div 10), digit_char (n mod 10)]"
  using dec_nat.simps [of n] by (simp add: dec_nat_1)

lemma dec_nat_4:
  assumes "1000 \<le> n" "n < 10000"
  shows "dec_nat n = [digit_char (n div 1000), digit_char (n div 100 mod 10),
                      digit_char (n div 10 mod 10), digit_char (n mod 10)]"
proof -
  have n1: "\<not> n < 10" and n2: "\<not> n div 10 < 10"
    and n3: "10 \<le> n div 10 div 10" "n div 10 div 10 < 100"
    using assms by arith+
  have a: "dec_nat n = dec_nat (n div 10) @ [digit_char (n mod 10)]"
    using dec_nat.simps [of n] n1 by simp
  have b: "dec_nat (n div 10) = dec_nat (n div 10 div 10) @ [digit_char (n div 10 mod 10)]"
    using dec_nat.simps [of "n div 10"] n2 by simp
  have c: "dec_nat (n div 10 div 10)
      = [digit_char (n div 10 div 10 div 10), digit_char (n div 10 div 10 mod 10)]"
    using n3 by (rule dec_nat_2)
  show ?thesis using a b c by (simp add: div_mult2_eq [symmetric])
qed

lemma format_02d_two_digits:
  assumes "0 \<le> i" "i < 100"
  shows "format_02d i = two_digits i"
proof (cases "i < 10")
  case True
  then show ?thesis using assms
    by (simp add: format_02d_def two_digits_def dec_nat_1 digit_char_def)
next
  case False
  then have "dec_nat (nat i) = [digit_char (nat i div 10), digit_char (nat i mod 10)]"
    using assms by (intro dec_nat_2) simp_all
  then show ?thesis using assms False
    by (simp add: format_02d_def two_digits_def nat_div_distrib nat_mod_distrib)
qed

lemma str_int_four_digits:
  assumes "1000 \<le> i" "i \<le> 9999"
  shows "str_int i = four_digits i"
proof -
  have "dec_nat (nat i) = [digit_char (nat i div 1000), digit_char (nat i div 100 mod 10),
                      digit_char (nat i div 10 mod 10), digit_char (nat i mod 10)]"
    using assms by (intro dec_nat_4) simp_all
  then show ?thesis using assms
    by (simp add: str_int_def four_digits_def nat_div_distrib nat_mod_distrib)
qed

lemma days_in_month_le_31:
  assumes "1 \<le> m" "m \<le> 12"
  shows "days_in_month y m \<le> 31"
proof -
  have "m = 1 \<or> m = 2 \<or> m = 3 \<or> m = 4 \<or> m = 5 \<or> m = 6
      \<or> m = 7 \<or> m = 8 \<or> m = 9 \<or> m = 10 \<or> m = 11 \<or> m = 12"
    using assms by arith
  then show ?thesis by (auto simp add: days_in_month_def DAYS_IN_MONTH_def)
qed

lemma strftime_ymd_valid:
  assumes "valid_date y m d"
  shows "strftime_ymd pf (y, m, d) = strftime_Y pf y @ ''-'' @ two_digits m @ ''-'' @ two_digits d"
proof -
  have "d \<le> 31" using assms days_in_month_le_31 [of m y] by (simp add: valid_date_def)
  then show ?thesis using assms
    by (simp add: strftime_ymd_def valid_date_def format_02d_two_digits)
qed

text \<open>The text of a day count of the calendar.\<close>

lemma date_text_in_calendar:
  assumes "in_calendar days"
  shows "\<exists>y m d. valid_date y m d \<and> 1 \<le> y \<and> y \<le> 9999
           \<and> ymd2ord y m d - ymd2ord 1970 1 1 = days
           \<and> (- 354285 \<le> days \<longrightarrow> 1000 \<le> y)
           \<and> date_text pf days = Inr (strftime_Y pf y @ ''-'' @ two_digits m @ ''-'' @ two_digits d)"
proof -
  obtain y m d where e: "epoch_plus_days days = Inr (y, m, d)" and v: "valid_date y m d"
    and y: "1 \<le> y" "y \<le> 9999" and o: "ymd2ord y m d - ymd2ord 1970 1 1 = days"
    using epoch_plus_days_in_calendar [OF assms] by blast
  have "1000 \<le> y" if "- 354285 \<le> days"
  proof -
    have "days_before_year 1000 < ymd2ord y m d"
      using that o by (simp add: epoch_ordinal days_before_year_def)
    then show ?thesis by (rule ymd2ord_year_ge [OF v])
  qed
  moreover have "date_text pf days = Inr (strftime_Y pf y @ ''-'' @ two_digits m @ ''-'' @ two_digits d)"
    using e by (simp add: date_text_def strftime_ymd_valid [OF v])
  ultimately show ?thesis using v y o by blast
qed

lemma date_text_defined: "(\<not> isl (date_text pf days)) = in_calendar days"
proof (cases "in_calendar days")
  case True
  then show ?thesis using date_text_in_calendar [OF True, of pf] by auto
next
  case False
  then show ?thesis by (simp add: date_text_def epoch_plus_days_outside)
qed

lemma field_texts_distinct: "distinct (map fst (field_texts pf))"
  by (simp add: field_texts_def)

lemma field_texts_keys: "fst ` set (field_texts pf) = set temporal_fields"
  by (auto simp add: field_texts_def temporal_fields_def)

lemma convert_dates_defined: "(\<not> isl (convert_dates pf m)) = renderable pf m"
  unfolding convert_dates_steps steps_defined [OF field_texts_distinct]
  by (simp add: field_texts_def renderable_def date_text_defined split: option.splits)


lemma time_text_two_digits:
  assumes "0 \<le> ms" "ms < 360000000"
  shows "time_text ms = two_digits (ms div 1000 div 3600) @ '':''
                        @ two_digits (ms div 1000 mod 3600 div 60) @ '':''
                        @ two_digits (ms div 1000 mod 60)"
proof -
  have "ms div 1000 div 3600 = ms div 3600000"
    by (simp add: zdiv_zmult2_eq [symmetric])
  moreover have "ms div 3600000 \<le> 359999999 div 3600000"
    using assms by (intro zdiv_mono1) simp_all
  ultimately have h: "0 \<le> ms div 1000 div 3600" "ms div 1000 div 3600 < 100"
    using assms by (simp_all add: pos_imp_zdiv_nonneg_iff)
  have "ms div 1000 mod 3600 div 60 \<le> 3599 div 60"
    by (intro zdiv_mono1) simp_all
  then have mi: "0 \<le> ms div 1000 mod 3600 div 60" "ms div 1000 mod 3600 div 60 < 100"
    by (simp_all add: pos_imp_zdiv_nonneg_iff)
  have "ms div 1000 mod 60 < 60" by simp
  then have se: "0 \<le> ms div 1000 mod 60" "ms div 1000 mod 60 < 100"
    by simp_all
  show ?thesis
    unfolding time_text_def Let_def
      format_02d_two_digits [OF h] format_02d_two_digits [OF mi] format_02d_two_digits [OF se]
    by (rule refl)
qed

subsection \<open>The renderings of \<^verbatim>\<open>event_date\<close> and \<^verbatim>\<open>event_time\<close>\<close>

text \<open>
  One day past 9999-12-31 the date arithmetic raises, and \<^verbatim>\<open>convert_dates\<close> with it:
  nothing is rendered for this integer \<^verbatim>\<open>event_date\<close>.
\<close>

theorem convert_dates_renders_counterexample:
  "int_field [(''event_date'', PInt 2932897)] ''event_date'' = Some 2932897
   \<and> convert_dates utc_platform [(''event_date'', PInt 2932897)] = Inl OverflowError"
  by code_simp

text \<open>
  Claim C3, as the code has it. \<^verbatim>\<open>convert_dates\<close> returns a payload exactly when every
  integer temporal field can be rendered: the day count of \<^verbatim>\<open>event_date\<close> lies in the
  calendar of \<^verbatim>\<open>datetime\<close> (0001-01-01 to 9999-12-31, day counts \<open>-719162\<close> to \<open>2932896\<close>)
  and the platform renders the time stamps; otherwise it raises. When it returns, an
  integer \<^verbatim>\<open>event_date\<close> has become the text \<^verbatim>\<open>Y-MM-DD\<close> of the date of the calendar that
  lies that many days after 1970-01-01, the year with its four digits from the year
  1000 on (day count \<open>-354285\<close>), month and day with two digits; and an integer
  \<^verbatim>\<open>event_time\<close> of \<open>ms\<close> milliseconds has become hours, minutes and seconds in the format
  \<^verbatim>\<open>02d\<close>, joined by colons, with hours \<open>ms div 1000 div 3600\<close>, minutes
  \<open>ms div 1000 mod 3600 div 60\<close> and seconds \<open>ms div 1000 mod 60\<close>, which is two digits
  each below one hundred hours.
\<close>

theorem convert_dates_renders:
  "(\<not> isl (convert_dates pf m)) = renderable pf m \<and>
   (\<forall>m'. convert_dates pf m = Inr m' \<longrightarrow>
      (\<forall>days. int_field m ''event_date'' = Some days \<longrightarrow>
         (\<exists>y mo d. valid_date y mo d \<and> 1 \<le> y \<and> y \<le> 9999
            \<and> ymd2ord y mo d - ymd2ord 1970 1 1 = days
            \<and> (- 354285 \<le> days \<longrightarrow> strftime_Y pf y = four_digits y)
            \<and> map_of m' ''event_date''
                = Some (PStr (strftime_Y pf y @ ''-'' @ two_digits mo @ ''-'' @ two_digits d))))
      \<and> (\<forall>ms. int_field m ''event_time'' = Some ms \<longrightarrow>
           map_of m' ''event_time''
             = Some (PStr (format_02d (ms div 1000 div 3600) @ '':''
                           @ format_02d (ms div 1000 mod 3600 div 60) @ '':''
                           @ format_02d (ms div 1000 mod 60)))
           \<and> (0 \<le> ms \<and> ms < 360000000 \<longrightarrow>
                map_of m' ''event_time''
                  = Some (PStr (two_digits (ms div 1000 div 3600) @ '':''
                                @ two_digits (ms div 1000 mod 3600 div 60) @ '':''
                                @ two_digits (ms div 1000 mod 60))))))"
proof (intro conjI allI impI)
  show "(\<not> isl (convert_dates pf m)) = renderable pf m"
    by (rule convert_dates_defined)
next
  fix m' days
  assume r: "convert_dates pf m = Inr m'" and i: "int_field m ''event_date'' = Some days"
  have "(''event_date'', date_text pf) \<in> set (field_texts pf)"
    by (simp add: field_texts_def)
  from steps_value [OF field_texts_distinct this r [unfolded convert_dates_steps] i]
  obtain s where s: "date_text pf days = Inr s" "map_of m' ''event_date'' = Some (PStr s)"
    by blast
  have "in_calendar days" using s(1) date_text_defined [of pf days] by simp
  from date_text_in_calendar [OF this, of pf]
  obtain y mo d where v: "valid_date y mo d" "1 \<le> y" "y \<le> 9999"
    "ymd2ord y mo d - ymd2ord 1970 1 1 = days" "- 354285 \<le> days \<longrightarrow> 1000 \<le> y"
    and t: "date_text pf days = Inr (strftime_Y pf y @ ''-'' @ two_digits mo @ ''-'' @ two_digits d)"
    by blast
  have f: "- 354285 \<le> days \<longrightarrow> strftime_Y pf y = four_digits y"
    using v(3,5) by (auto simp add: strftime_Y_def str_int_four_digits)
  have "s = strftime_Y pf y @ ''-'' @ two_digits mo @ ''-'' @ two_digits d"
    using s(1) t by simp
  then have g: "map_of m' ''event_date''
      = Some (PStr (strftime_Y pf y @ ''-'' @ two_digits mo @ ''-'' @ two_digits d))"
    using s(2) by simp
  show "\<exists>y mo d. valid_date y mo d \<and> 1 \<le> y \<and> y \<le> 9999
            \<and> ymd2ord y mo d - ymd2ord 1970 1 1 = days
            \<and> (- 354285 \<le> days \<longrightarrow> strftime_Y pf y = four_digits y)
            \<and> map_of m' ''event_date''
                = Some (PStr (strftime_Y pf y @ ''-'' @ two_digits mo @ ''-'' @ two_digits d))"
    by (intro exI [of _ y] exI [of _ mo] exI [of _ d] conjI v(1) v(2) v(3) v(4) f g)
next
  fix m' ms
  assume r: "convert_dates pf m = Inr m'" and i: "int_field m ''event_time'' = Some ms"
  have "(''event_time'', Inr \<circ> time_text) \<in> set (field_texts pf)"
    by (simp add: field_texts_def)
  from steps_value [OF field_texts_distinct this r [unfolded convert_dates_steps] i]
  have t: "map_of m' ''event_time'' = Some (PStr (time_text ms))"
    by auto
  then show "map_of m' ''event_time''
             = Some (PStr (format_02d (ms div 1000 div 3600) @ '':''
                           @ format_02d (ms div 1000 mod 3600 div 60) @ '':''
                           @ format_02d (ms div 1000 mod 60)))"
    by (simp add: time_text_def Let_def)
  assume b: "0 \<le> ms \<and> ms < 360000000"
  then have "time_text ms = two_digits (ms div 1000 div 3600) @ '':''
                        @ two_digits (ms div 1000 mod 3600 div 60) @ '':''
                        @ two_digits (ms div 1000 mod 60)"
    by (intro time_text_two_digits) simp_all
  then show "map_of m' ''event_time''
                  = Some (PStr (two_digits (ms div 1000 div 3600) @ '':''
                                @ two_digits (ms div 1000 mod 3600 div 60) @ '':''
                                @ two_digits (ms div 1000 mod 60)))"
    using t by simp
qed

theorem convert_dates_renders_witness:
  "renderable utc_platform [(''event_date'', PInt 20000), (''event_time'', PInt 34200000)]
   \<and> convert_dates utc_platform [(''event_date'', PInt 20000), (''event_time'', PInt 34200000)]
       = Inr [(''event_date'', PStr ''2024-10-04''), (''event_time'', PStr ''09:30:00'')]
   \<and> map_of [(''event_date'', PStr ''2024-10-04''), (''event_time'', PStr ''09:30:00'')]
        ''event_time''
       = Some (PStr (two_digits (34200000 div 1000 div 3600) @ '':''
                     @ two_digits (34200000 div 1000 mod 3600 div 60) @ '':''
                     @ two_digits (34200000 div 1000 mod 60)))"
proof -
  note th = convert_dates_renders
      [of utc_platform "[(''event_date'', PInt 20000), (''event_time'', PInt 34200000)]"]
  have r: "convert_dates utc_platform [(''event_date'', PInt 20000), (''event_time'', PInt 34200000)]
       = Inr [(''event_date'', PStr ''2024-10-04''), (''event_time'', PStr ''09:30:00'')]"
    by code_simp
  have i: "int_field [(''event_date'', PInt 20000), (''event_time'', PInt 34200000)] ''event_time''
       = Some 34200000"
    by (simp add: int_field_def)
  have a: "renderable utc_platform [(''event_date'', PInt 20000), (''event_time'', PInt 34200000)]"
    using th [THEN conjunct1] r by simp
  note t = th [THEN conjunct2, THEN spec, THEN mp, OF r, THEN conjunct2, THEN spec, THEN mp,
      OF i, THEN conjunct2, THEN mp]
  have b: "map_of [(''event_date'', PStr ''2024-10-04''), (''event_time'', PStr ''09:30:00'')]
        ''event_time''
       = Some (PStr (two_digits (34200000 div 1000 div 3600) @ '':''
                     @ two_digits (34200000 div 1000 mod 3600 div 60) @ '':''
                     @ two_digits (34200000 div 1000 mod 60)))"
    by (rule t) simp
  show ?thesis by (intro conjI a r b)
qed


subsection \<open>Malformed and already decoded fields\<close>

lemma renderable_if_no_integer:
  "\<forall>k\<in>set temporal_fields. int_field m k = None \<Longrightarrow> renderable pf m"
  by (simp add: renderable_def temporal_fields_def)

lemma convert_dates_identity:
  assumes "\<forall>k\<in>set temporal_fields. int_field m k = None"
  shows "convert_dates pf m = Inr m"
  unfolding convert_dates_steps
  by (rule steps_identity) (use assms in \<open>simp add: field_texts_keys\<close>)

lemma convert_dates_decoded:
  assumes "convert_dates pf m = Inr m'"
  shows "\<forall>k\<in>set temporal_fields. int_field m' k = None"
  using steps_int_field [OF assms [unfolded convert_dates_steps]]
  by (simp add: field_texts_keys)

text \<open>
  An integer \<^verbatim>\<open>event_date\<close> outside the calendar raises out of \<^verbatim>\<open>convert_dates\<close> and out of
  \<^verbatim>\<open>send_to_weaviate\<close>: the title and the time of the record reach nobody.
\<close>

theorem convert_dates_malformed_counterexample:
  "convert_dates utc_platform
     [(''title'', PStr ''Launch''), (''event_date'', PInt 3000000),
      (''event_time'', PInt 34200000)] = Inl OverflowError
   \<and> fst (send_to_weaviate utc_platform
       [(''title'', PStr ''Launch''), (''event_date'', PInt 3000000),
        (''event_time'', PInt 34200000)] empty_index) = Inl OverflowError
   \<and> objects (snd (send_to_weaviate utc_platform
       [(''title'', PStr ''Launch''), (''event_date'', PInt 3000000),
        (''event_time'', PInt 34200000)] empty_index)) = []"
proof -
  have c: "convert_dates utc_platform
     [(''title'', PStr ''Launch''), (''event_date'', PInt 3000000),
      (''event_time'', PInt 34200000)] = Inl OverflowError"
    by code_simp
  show ?thesis by (simp add: c send_to_weaviate_def empty_index_def)
qed

text \<open>
  Claim C4, as the code has it. The converter has no handler of its own; what it has
  is the test \<^verbatim>\<open>isinstance(v, int)\<close>. So a temporal field that holds no integer (an
  unrecognised encoding) is left with its raw value and cannot make the converter
  raise: a payload without integer temporal fields comes back as it is. In general the
  converter returns whenever its integer temporal fields can be rendered, and the
  payload it returns has the same keys in the same order, every other field unchanged,
  and each temporal field either raw (it held no integer) or a text (it held one).
  An integer that cannot be rendered raises, as shown with the renderings above.
\<close>

theorem convert_dates_malformed:
  "((\<forall>k\<in>set temporal_fields. int_field m k = None) \<longrightarrow> convert_dates pf m = Inr m)
   \<and> (renderable pf m \<longrightarrow> (\<exists>m'. convert_dates pf m = Inr m'))
   \<and> (\<forall>m'. convert_dates pf m = Inr m' \<longrightarrow>
         map fst m' = map fst m
         \<and> (\<forall>k. k \<notin> set temporal_fields \<longrightarrow> map_of m' k = map_of m k)
         \<and> (\<forall>k. int_field m k = None \<longrightarrow> map_of m' k = map_of m k)
         \<and> (\<forall>k\<in>set temporal_fields. \<forall>n. int_field m k = Some n \<longrightarrow>
               (\<exists>s. map_of m' k = Some (PStr s))))"
proof (intro conjI allI impI ballI)
  assume "\<forall>k\<in>set temporal_fields. int_field m k = None"
  then show "convert_dates pf m = Inr m" by (rule convert_dates_identity)
next
  assume "renderable pf m"
  then have "\<not> isl (convert_dates pf m)" by (simp add: convert_dates_defined)
  then show "\<exists>m'. convert_dates pf m = Inr m'" by (cases "convert_dates pf m") simp_all
next
  fix m'
  assume r: "convert_dates pf m = Inr m'"
  note r' = r [unfolded convert_dates_steps]
  show "map fst m' = map fst m" by (rule steps_keys [OF r'])
  {
    fix k
    assume "k \<notin> set temporal_fields"
    then show "map_of m' k = map_of m k"
      using steps_other [OF r', of k] by (simp add: field_texts_keys)
  }
  {
    fix k
    assume "int_field m k = None"
    then show "map_of m' k = map_of m k" by (rule steps_raw [OF r'])
  }
  {
    fix k n
    assume k: "k \<in> set temporal_fields" and i: "int_field m k = Some n"
    from k have "k \<in> fst ` set (field_texts pf)" by (simp add: field_texts_keys)
    then obtain g where "(k, g) \<in> set (field_texts pf)" by force
    from steps_value [OF field_texts_distinct this r' i]
    show "\<exists>s. map_of m' k = Some (PStr s)" by blast
  }
qed

theorem convert_dates_malformed_witness:
  "renderable utc_platform
     [(''title'', PStr ''Launch''), (''event_date'', PStr ''next week''),
      (''event_time'', PInt 34200000)]
   \<and> convert_dates utc_platform
        [(''title'', PStr ''Launch''), (''event_date'', PStr ''next week''),
         (''event_time'', PInt 34200000)]
       = Inr [(''title'', PStr ''Launch''), (''event_date'', PStr ''next week''),
              (''event_time'', PStr ''09:30:00'')]
   \<and> map fst [(''title'', PStr ''Launch''), (''event_date'', PStr ''next week''),
              (''event_time'', PStr ''09:30:00'')]
       = map fst [(''title'', PStr ''Launch''), (''event_date'', PStr ''next week''),
                  (''event_time'', PInt 34200000)]"
proof -
  note th = convert_dates_malformed
      [of "[(''title'', PStr ''Launch''), (''event_date'', PStr ''next week''),
            (''event_time'', PInt 34200000)]" utc_platform]
  have r: "convert_dates utc_platform
        [(''title'', PStr ''Launch''), (''event_date'', PStr ''next week''),
         (''event_time'', PInt 34200000)]
       = Inr [(''title'', PStr ''Launch''), (''event_date'', PStr ''next week''),
              (''event_time'', PStr ''09:30:00'')]"
    by code_simp
  have a: "renderable utc_platform
     [(''title'', PStr ''Launch''), (''event_date'', PStr ''next week''),
      (''event_time'', PInt 34200000)]"
    by (simp add: renderable_def int_field_def)
  note b = th [THEN conjunct2, THEN conjunct2, THEN spec, THEN mp, OF r, THEN conjunct1]
  show ?thesis by (intro conjI a r b)
qed

text \<open>
  Claim C8. A temporal field that holds no integer in the sense of the test the code
  makes (\<^verbatim>\<open>isinstance(v, int)\<close>, which a text, a float, \<^verbatim>\<open>None\<close>, a list and an object fail, and
  which Python's booleans pass) is returned unchanged: a payload none of whose temporal
  fields holds an integer comes back as it is. And the converter is idempotent:
  wherever it returns a payload, converting that payload again returns it unchanged.
\<close>

theorem convert_dates_idempotent:
  "((\<forall>k\<in>set temporal_fields. int_field m k = None) \<longrightarrow> convert_dates pf m = Inr m)
   \<and> (\<forall>m'. convert_dates pf m = Inr m' \<longrightarrow> convert_dates pf m' = Inr m')"
proof (intro conjI allI impI)
  assume "\<forall>k\<in>set temporal_fields. int_field m k = None"
  then show "convert_dates pf m = Inr m" by (rule convert_dates_identity)
next
  fix m'
  assume "convert_dates pf m = Inr m'"
  then have "\<forall>k\<in>set temporal_fields. int_field m' k = None" by (rule convert_dates_decoded)
  then show "convert_dates pf m' = Inr m'" by (rule convert_dates_identity)
qed

theorem convert_dates_idempotent_witness:
  "convert_dates utc_platform
     [(''id'', PInt 7), (''event_date'', PInt 20000), (''event_time'', PInt 34200000),
      (''created_at'', PInt 1700000000000)]
     = Inr [(''id'', PInt 7), (''event_date'', PStr ''2024-10-04''),
            (''event_time'', PStr ''09:30:00''), (''created_at'', PStr ''2023-11-14 22:13:20'')]
   \<and> convert_dates utc_platform
       [(''id'', PInt 7), (''event_date'', PStr ''2024-10-04''),
        (''event_time'', PStr ''09:30:00''), (''created_at'', PStr ''2023-11-14 22:13:20'')]
     = Inr [(''id'', PInt 7), (''event_date'', PStr ''2024-10-04''),
            (''event_time'', PStr ''09:30:00''), (''created_at'', PStr ''2023-11-14 22:13:20'')]"
proof -
  have r: "convert_dates utc_platform
     [(''id'', PInt 7), (''event_date'', PInt 20000), (''event_time'', PInt 34200000),
      (''created_at'', PInt 1700000000000)]
     = Inr [(''id'', PInt 7), (''event_date'', PStr ''2024-10-04''),
            (''event_time'', PStr ''09:30:00''), (''created_at'', PStr ''2023-11-14 22:13:20'')]"
    by code_simp
  note b = convert_dates_idempotent [THEN conjunct2, THEN spec, THEN mp, OF r]
  show ?thesis by (intro conjI r b)
qed


subsection \<open>The argument of the converter is not changed\<close>

lemma and_then_Inr_right [simp]: "and_then r Inr = r"
  by (cases r) simp_all







section \<open>The index consumer\<close>

subsection \<open>The request body\<close>

text \<open>
  The body \<^verbatim>\<open>send_to_weaviate\<close> posts has the two keys \<^verbatim>\<open>class\<close> and \<^verbatim>\<open>properties\<close>, so it names no
  identity; its properties never have the key \<^verbatim>\<open>id\<close>; and they carry the source id
  under \<^verbatim>\<open>postgres_id\<close> when the id is true, that is, present and neither null nor zero.
\<close>

lemma build_object_shape:
  "\<exists>props. build_object m = PDict [(''class'', PStr WEAVIATE_CLASS), (''properties'', PDict props)]
     \<and> map_of props ''id'' = None"
  by (simp add: build_object_def Let_def update_conv' delete_conv')

lemma build_object_truthy_id:
  assumes "map_of m ''id'' = Some v" and "truthy v"
  shows "\<exists>props. build_object m = PDict [(''class'', PStr WEAVIATE_CLASS), (''properties'', PDict props)]
     \<and> map_of props ''id'' = None \<and> map_of props ''postgres_id'' = Some v"
  using assms by (simp add: build_object_def Let_def dict_get_def update_conv' delete_conv')

lemma weaviate_post_fresh:
  assumes "online w" and "validates w (PDict b)" and "map_of b ''id'' = None"
  shows "weaviate_post (PDict b) w
     = (Inr 200, w\<lparr>objects := objects w @ [(Generated (generated w), PDict b)],
                    generated := generated w + 1\<rparr>)"
  using assms by (simp add: weaviate_post_def)

text \<open>
  Claim C7 says that the document never carries the raw \<^verbatim>\<open>id\<close> and always carries the
  source id under \<^verbatim>\<open>postgres_id\<close>. The first half holds for every record and the second
  for every id that is true, as the two lemmas on the request body say. It fails for the
  record with the source id 0: the id is popped, the guard \<^verbatim>\<open>if postgres_id:\<close> takes 0 for
  absent, and the document that reaches the index has neither \<^verbatim>\<open>id\<close> nor \<^verbatim>\<open>postgres_id\<close>.
\<close>

theorem send_to_weaviate_zero_id:
  "fst (send_to_weaviate utc_platform [(''id'', PInt 0), (''title'', PStr ''Launch'')] empty_index)
     = Inr ()
   \<and> objects (snd (send_to_weaviate utc_platform
        [(''id'', PInt 0), (''title'', PStr ''Launch'')] empty_index))
     = [(Generated 0,
         PDict [(''class'', PStr ''Event''),
                (''properties'', PDict [(''title'', PStr ''Launch'')])])]"
proof -
  have c: "convert_dates utc_platform [(''id'', PInt 0), (''title'', PStr ''Launch'')]
      = Inr [(''id'', PInt 0), (''title'', PStr ''Launch'')]"
    by code_simp
  have b: "build_object [(''id'', PInt 0), (''title'', PStr ''Launch'')]
      = PDict [(''class'', PStr ''Event''), (''properties'', PDict [(''title'', PStr ''Launch'')])]"
    by (simp add: build_object_def dict_get_def WEAVIATE_CLASS_def)
  show ?thesis
    by (simp add: send_to_weaviate_def c b weaviate_post_def empty_index_def)
qed

subsection \<open>Two deliveries of one record\<close>

theorem send_to_weaviate_twice_counterexample:
  "map snd (objects (snd (send_to_weaviate utc_platform
       [(''id'', PInt 7), (''title'', PStr ''Launch'')]
       (snd (send_to_weaviate utc_platform
          [(''id'', PInt 7), (''title'', PStr ''Launch'')] empty_index)))))
     = [PDict [(''class'', PStr ''Event''),
               (''properties'', PDict [(''title'', PStr ''Launch''), (''postgres_id'', PInt 7)])],
        PDict [(''class'', PStr ''Event''),
               (''properties'', PDict [(''title'', PStr ''Launch''), (''postgres_id'', PInt 7)])]]"
proof -
  have c: "convert_dates utc_platform [(''id'', PInt 7), (''title'', PStr ''Launch'')]
      = Inr [(''id'', PInt 7), (''title'', PStr ''Launch'')]"
    by code_simp
  have b: "build_object [(''id'', PInt 7), (''title'', PStr ''Launch'')]
      = PDict [(''class'', PStr ''Event''),
               (''properties'', PDict [(''title'', PStr ''Launch''), (''postgres_id'', PInt 7)])]"
    by (simp add: build_object_def dict_get_def WEAVIATE_CLASS_def)
  show ?thesis
    by (simp add: send_to_weaviate_def c b weaviate_post_def empty_index_def)
qed

text \<open>
  Claim C2, as the code has it. \<^verbatim>\<open>send_to_weaviate\<close> posts a creation request whose body
  holds the class and the properties and names no identity; the source id travels as
  the ordinary property \<^verbatim>\<open>postgres_id\<close>. Delivering one record twice to an index that is
  reachable and accepts the body therefore creates two objects, under two generated
  identities, with the same body: the second delivery does not replace the first.
\<close>

theorem send_to_weaviate_twice:
  assumes "convert_dates pf m = Inr m'" and "online w" and "validates w (build_object m')"
  shows "objects (snd (send_to_weaviate pf m (snd (send_to_weaviate pf m w))))
           = objects w @ [(Generated (generated w), build_object m'),
                          (Generated (generated w + 1), build_object m')]
         \<and> (\<exists>props. build_object m'
               = PDict [(''class'', PStr WEAVIATE_CLASS), (''properties'', PDict props)])"
proof -
  obtain props where p: "build_object m'
      = PDict [(''class'', PStr WEAVIATE_CLASS), (''properties'', PDict props)]"
    using build_object_shape [of m'] by blast
  define b where "b = [(''class'', PStr WEAVIATE_CLASS), (''properties'', PDict props)]"
  have noid: "map_of b ''id'' = None" by (simp add: b_def)
  have v: "validates w (PDict b)" using assms(3) p by (simp add: b_def)
  define w1 where "w1 = w\<lparr>objects := objects w @ [(Generated (generated w), PDict b)],
                            generated := generated w + 1\<rparr>"
  have s1: "send_to_weaviate pf m w = (Inr (), w1)"
    using assms(1) weaviate_post_fresh [OF assms(2) v noid]
    by (simp add: send_to_weaviate_def p b_def w1_def)
  have o1: "online w1" "validates w1 (PDict b)" using assms(2) v by (simp_all add: w1_def)
  have s2: "send_to_weaviate pf m w1
      = (Inr (), w1\<lparr>objects := objects w1 @ [(Generated (generated w1), PDict b)],
                      generated := generated w1 + 1\<rparr>)"
    using assms(1) weaviate_post_fresh [OF o1 noid]
    by (simp add: send_to_weaviate_def p b_def)
  have "objects (snd (send_to_weaviate pf m (snd (send_to_weaviate pf m w))))
      = objects w1 @ [(Generated (generated w1), PDict b)]"
    by (simp add: s1 s2)
  also have "\<dots> = objects w @ [(Generated (generated w), build_object m'),
                          (Generated (generated w + 1), build_object m')]"
    by (simp add: w1_def p b_def)
  finally show ?thesis using p by simp
qed

theorem send_to_weaviate_twice_witness:
  "convert_dates utc_platform [(''id'', PInt 7), (''title'', PStr ''Launch'')]
      = Inr [(''id'', PInt 7), (''title'', PStr ''Launch'')]
   \<and> online empty_index
   \<and> validates empty_index (build_object [(''id'', PInt 7), (''title'', PStr ''Launch'')])
   \<and> objects (snd (send_to_weaviate utc_platform [(''id'', PInt 7), (''title'', PStr ''Launch'')]
        (snd (send_to_weaviate utc_platform [(''id'', PInt 7), (''title'', PStr ''Launch'')]
           empty_index))))
      = objects empty_index
        @ [(Generated (generated empty_index),
            build_object [(''id'', PInt 7), (''title'', PStr ''Launch'')]),
           (Generated (generated empty_index + 1),
            build_object [(''id'', PInt 7), (''title'', PStr ''Launch'')])]"
proof -
  have c: "convert_dates utc_platform [(''id'', PInt 7), (''title'', PStr ''Launch'')]
      = Inr [(''id'', PInt 7), (''title'', PStr ''Launch'')]"
    by code_simp
  have o: "online empty_index" by (simp add: empty_index_def)
  have v: "validates empty_index (build_object [(''id'', PInt 7), (''title'', PStr ''Launch'')])"
    by (simp add: empty_index_def)
  note t = send_to_weaviate_twice [OF c o v, THEN conjunct1]
  show ?thesis by (intro conjI c o v t)
qed

subsection \<open>The two consumer loops\<close>

text \<open>
  The notification loop cannot be ended by a message that its deserializer decodes:
  whatever such messages hold and whatever the collaborators do, it takes every one
  of them and waits for the next.
\<close>

lemma run_loop_takes_all:
  "Not_json \<notin> set stream \<Longrightarrow>
   fst (run_loop svc stream st handled) = Waiting
   \<and> fst (snd (run_loop svc stream st handled)) = handled + length stream"
proof (induction stream arbitrary: st handled)
  case Nil
  show ?case by simp
next
  case (Cons x stream)
  from Cons.prems have n: "x \<noteq> Not_json" "Not_json \<notin> set stream" by auto
  from n(1) obtain v where v: "email_deserializer x = Inr v"
    by (cases x) (simp_all add: email_deserializer_def)
  obtain raised st' where p:
    "(if truthy v then process_registration_event svc v st else (None, st)) = (raised, st')"
    by (cases "if truthy v then process_registration_event svc v st else (None, st)")
  have "run_loop svc (x # stream) st handled = run_loop svc stream st' (handled + 1)"
    by (simp add: v p)
  then show ?case using Cons.IH [OF n(2), of st' "handled + 1"] by simp
qed

text \<open>
  Bytes that are no JSON text end either loop: the deserializer raises where the loop
  takes the message, which is outside of every handler.
\<close>

lemma run_ends_on_undecodable:
  "connect_kafka available = Inr () \<Longrightarrow>
   run svc available (Not_json # stream) st = (Raised ValueError, 0, st)"
  by (simp add: run_def email_deserializer_def)

lemma main_ends_on_undecodable:
  "main pf True (Not_json # stream) w = (Raised ValueError, 0, w)"
  by (simp add: main_def index_deserializer_def)

text \<open>
  A failure of the upsert itself does not end the index loop: \<^verbatim>\<open>send_to_weaviate\<close> catches
  what \<^verbatim>\<open>requests.post\<close> raises.
\<close>

lemma send_to_weaviate_offline:
  assumes "convert_dates pf m = Inr m'" and "\<not> online w"
  shows "send_to_weaviate pf m w = (Inr (), w)"
  using assms by (simp add: send_to_weaviate_def weaviate_post_def)

text \<open>
  Claim C6 says that no error of one record ends a consumer loop, for both loops. The
  notification loop is like that for every message that decodes, as shown above. The
  index loop is not: it has no handler around its body, and a change event whose row
  image holds a day count outside the calendar raises out of \<^verbatim>\<open>convert_dates\<close>, through
  \<^verbatim>\<open>send_to_weaviate\<close> and out of the loop. The loop ends with the exception, and the event
  after it is never taken.
\<close>

theorem main_ends_on_bad_event:
  "main utc_platform True
     [Json (PDict [(''after'', PDict [(''id'', PInt 1), (''event_date'', PInt 3000000)])]),
      Json (PDict [(''after'', PDict [(''id'', PInt 2), (''title'', PStr ''Launch'')])])]
     empty_index
   = (Raised OverflowError, 0, empty_index)"
proof -
  have c: "convert_dates utc_platform [(''id'', PInt 1), (''event_date'', PInt 3000000)]
      = Inl OverflowError"
    by code_simp
  show ?thesis
    by (simp add: main_def index_deserializer_def handle_event_def py_dict_def
          send_to_weaviate_def c)
qed


section \<open>The notification consumer\<close>

subsection \<open>The gate\<close>

lemma process_filtered_out:
  "filtered_out message \<Longrightarrow> snd (process_registration_event svc message st) = st"
  by (cases message)
     (auto simp add: filtered_out_def process_registration_event_def process_body_def
        split: prod.splits)

lemma run_loop_filtered_out:
  "\<forall>v\<in>set records. filtered_out v \<Longrightarrow>
   snd (snd (run_loop svc (map Json records) st handled)) = st"
proof (induction records arbitrary: handled)
  case Nil
  show ?case by simp
next
  case (Cons v records)
  obtain raised st' where p: "process_registration_event svc v st = (raised, st')"
    by (cases "process_registration_event svc v st")
  have "snd (process_registration_event svc v st) = st"
    using Cons.prems by (simp add: process_filtered_out)
  then have "st' = st" using p by simp
  then show ?case using Cons p by (simp add: email_deserializer_def)
qed

lemma queries_get_registration_details:
  "queries (snd (get_registration_details svc i st)) = queries st @ [i]"
  by (simp add: get_registration_details_def)

lemma queries_send:
  "queries (snd (send_registration_confirmation svc e n ed st)) = queries st"
  by (simp add: send_registration_confirmation_def split: sum.splits)

lemma queries_mark: "queries (snd (mark_email_sent svc i st)) = queries st"
  by (simp add: mark_email_sent_def)

lemma process_actionable_queries:
  assumes "\<not> filtered_out (PDict after_data)"
  shows "queries (snd (process_registration_event svc (PDict after_data) st))
           = queries st @ [registration_id_of after_data]"
proof -
  obtain rd st1 where g: "get_registration_details svc (registration_id_of after_data) st = (rd, st1)"
    by (cases "get_registration_details svc (registration_id_of after_data) st")
  have q1: "queries st1 = queries st @ [registration_id_of after_data]"
    using queries_get_registration_details [of svc "registration_id_of after_data" st] g by simp
  show ?thesis
  proof (cases rd)
    case None
    then show ?thesis using assms g q1
      by (simp add: filtered_out_def process_registration_event_def process_body_def)
  next
    case (Some details)
    show ?thesis
    proof (cases "prepare_email details")
      case (Inl e)
      then show ?thesis using assms g q1 Some
        by (simp add: filtered_out_def process_registration_event_def process_body_def)
    next
      case (Inr p)
      obtain user_email user_name event_details where p: "p = (user_email, user_name, event_details)"
        by (cases p)
      obtain ok st2 where s: "send_registration_confirmation svc user_email user_name
          event_details st1 = (ok, st2)"
        by (cases "send_registration_confirmation svc user_email user_name event_details st1")
      have q2: "queries st2 = queries st1"
        using queries_send [of svc user_email user_name event_details st1] s by simp
      show ?thesis using assms g q1 q2 Some Inr p s queries_mark [of svc _ st2]
        by (cases ok)
           (simp_all add: filtered_out_def process_registration_event_def process_body_def)
    qed
  qed
qed

text \<open>
  The table is not read: the messages sent for a record are the same whatever the
  rows of \<^verbatim>\<open>event_registrations\<close> hold.
\<close>

lemma get_registration_details_table:
  "get_registration_details svc i (st\<lparr>event_registrations := rows\<rparr>)
     = (fst (get_registration_details svc i st),
        (snd (get_registration_details svc i st))\<lparr>event_registrations := rows\<rparr>)"
  by (simp add: get_registration_details_def)

lemma send_registration_confirmation_table:
  "send_registration_confirmation svc e n ed (st\<lparr>event_registrations := rows\<rparr>)
     = (fst (send_registration_confirmation svc e n ed st),
        (snd (send_registration_confirmation svc e n ed st))\<lparr>event_registrations := rows\<rparr>)"
  by (simp add: send_registration_confirmation_def split: sum.splits)

lemma outbox_mark: "outbox (snd (mark_email_sent svc i st)) = outbox st"
  by (simp add: mark_email_sent_def)

lemma process_outbox_table:
  "outbox (snd (process_registration_event svc message (st\<lparr>event_registrations := rows\<rparr>)))
     = outbox (snd (process_registration_event svc message st))"
proof (cases "filtered_out message")
  case True
  then show ?thesis by (simp add: process_filtered_out)
next
  case False
  then obtain d where d: "message = PDict d"
    by (cases message) (simp_all add: filtered_out_def)
  obtain rd st1 where g: "get_registration_details svc (registration_id_of d) st = (rd, st1)"
    by (cases "get_registration_details svc (registration_id_of d) st")
  have g': "get_registration_details svc (registration_id_of d)
      (st\<lparr>event_registrations := rows\<rparr>) = (rd, st1\<lparr>event_registrations := rows\<rparr>)"
    using g by (simp add: get_registration_details_table)
  show ?thesis
  proof (cases rd)
    case None
    then show ?thesis using False g g'
      by (simp add: d filtered_out_def process_registration_event_def process_body_def)
  next
    case (Some details)
    show ?thesis
    proof (cases "prepare_email details")
      case (Inl e)
      then show ?thesis using False g g' Some
        by (simp add: d filtered_out_def process_registration_event_def process_body_def)
    next
      case (Inr p)
      obtain user_email user_name event_details where p: "p = (user_email, user_name, event_details)"
        by (cases p)
      obtain ok st2 where s: "send_registration_confirmation svc user_email user_name
          event_details st1 = (ok, st2)"
        by (cases "send_registration_confirmation svc user_email user_name event_details st1")
      have s': "send_registration_confirmation svc user_email user_name event_details
          (st1\<lparr>event_registrations := rows\<rparr>) = (ok, st2\<lparr>event_registrations := rows\<rparr>)"
        using s by (simp add: send_registration_confirmation_table)
      show ?thesis using False g g' Some Inr p s s'
        by (cases ok)
           (simp_all add: d filtered_out_def process_registration_event_def process_body_def
              outbox_mark)
    qed
  qed
qed

text \<open>
  Two deliveries of one record that says \<^verbatim>\<open>email_sent = false\<close>, with collaborators that all
  work: the first delivery, and the second in the world the first has left.
\<close>

lemma demo_first_delivery:
  "process_registration_event demo_services
     (PDict [(''id'', PInt 1), (''status'', PStr ''registered''), (''email_sent'', PBool False)])
     demo_world
   = (None,
      \<lparr>event_registrations = [(1, \<lparr>email_sent = True, email_sent_at = Some 1000\<rparr>)],
       queries = [PInt 1], updates = [PInt 1],
       outbox =
         [\<lparr>msg_to = DText ''user@example.org'', msg_subject = subject_prefix @ ''Launch'',
           msg_html = \<lparr>greeting_name = ''mona'', heading_title = ''Launch'',
                        date_time_line = ''2024-10-04 at 09:30:00'',
                        location_line = ''Cairo'', category_line = ''Tech'',
                        organizer_line = ''Qeema'', description_block = None\<rparr>\<rparr>]\<rparr>)"
  by code_simp

lemma demo_second_delivery:
  "process_registration_event demo_services
     (PDict [(''id'', PInt 1), (''status'', PStr ''registered''), (''email_sent'', PBool False)])
     \<lparr>event_registrations = [(1, \<lparr>email_sent = True, email_sent_at = Some 1000\<rparr>)],
      queries = [PInt 1], updates = [PInt 1],
      outbox =
         [\<lparr>msg_to = DText ''user@example.org'', msg_subject = subject_prefix @ ''Launch'',
           msg_html = \<lparr>greeting_name = ''mona'', heading_title = ''Launch'',
                        date_time_line = ''2024-10-04 at 09:30:00'',
                        location_line = ''Cairo'', category_line = ''Tech'',
                        organizer_line = ''Qeema'', description_block = None\<rparr>\<rparr>]\<rparr>
   = (None,
      \<lparr>event_registrations = [(1, \<lparr>email_sent = True, email_sent_at = Some 1000\<rparr>)],
       queries = [PInt 1, PInt 1], updates = [PInt 1, PInt 1],
       outbox =
         [\<lparr>msg_to = DText ''user@example.org'', msg_subject = subject_prefix @ ''Launch'',
           msg_html = \<lparr>greeting_name = ''mona'', heading_title = ''Launch'',
                        date_time_line = ''2024-10-04 at 09:30:00'',
                        location_line = ''Cairo'', category_line = ''Tech'',
                        organizer_line = ''Qeema'', description_block = None\<rparr>\<rparr>,
          \<lparr>msg_to = DText ''user@example.org'', msg_subject = subject_prefix @ ''Launch'',
           msg_html = \<lparr>greeting_name = ''mona'', heading_title = ''Launch'',
                        date_time_line = ''2024-10-04 at 09:30:00'',
                        location_line = ''Cairo'', category_line = ''Tech'',
                        organizer_line = ''Qeema'', description_block = None\<rparr>\<rparr>]\<rparr>)"
  by code_simp

text \<open>
  Claim C1 says that redelivering a record after its flag is true sends nothing more.
  The flag that is set by the first delivery is the one in the table, and the gate
  does not read the table: it reads the record. The record below says
  \<^verbatim>\<open>email_sent = false\<close>. Its first delivery sends a message and sets the flag of row 1 in
  the table; delivered again with the same content, it passes the gate again and a second
  message is sent.
\<close>

theorem filtered_out_no_effect_counterexample:
  "event_registrations (snd (process_registration_event demo_services
      (PDict [(''id'', PInt 1), (''status'', PStr ''registered''), (''email_sent'', PBool False)])
      demo_world))
     = [(1, \<lparr>email_sent = True, email_sent_at = Some 1000\<rparr>)]
   \<and> length (outbox (snd (process_registration_event demo_services
      (PDict [(''id'', PInt 1), (''status'', PStr ''registered''), (''email_sent'', PBool False)])
      demo_world))) = 1
   \<and> length (outbox (snd (process_registration_event demo_services
      (PDict [(''id'', PInt 1), (''status'', PStr ''registered''), (''email_sent'', PBool False)])
      (snd (process_registration_event demo_services
         (PDict [(''id'', PInt 1), (''status'', PStr ''registered''),
                 (''email_sent'', PBool False)]) demo_world))))) = 2"
  by (simp add: demo_first_delivery demo_second_delivery)

text \<open>
  Claim C1, as the code has it. The gate reads the status and the flag that the record
  itself carries. A record whose status is not \<^verbatim>\<open>'registered'\<close> or whose own \<^verbatim>\<open>email_sent\<close> is true
  (and likewise an empty record or a value that is no record) leaves the world as it
  is: no query of the read model, no message, no update of the flag. So does a stream
  of such records, for instance one record that carries a true flag, delivered again
  and again. A record that is registered and carries a false flag goes on to the fetch
  whatever the table holds: it queries the read model for its id, and what is sent for
  it does not depend on the flags in the table. Delivered again with the same content,
  it is processed again.
\<close>

theorem filtered_out_no_effect:
  "(filtered_out message \<longrightarrow> snd (process_registration_event svc message st) = st)
   \<and> ((\<forall>v\<in>set records. filtered_out v) \<longrightarrow>
        snd (snd (run svc available (map Json records) st)) = st)
   \<and> (status_of after_data \<noteq> PStr ''registered'' \<or> truthy (email_sent_of after_data)
        \<longrightarrow> filtered_out (PDict after_data))
   \<and> (after_data \<noteq> [] \<and> status_of after_data = PStr ''registered''
        \<and> \<not> truthy (email_sent_of after_data)
        \<longrightarrow> queries (snd (process_registration_event svc (PDict after_data) st))
              = queries st @ [registration_id_of after_data])
   \<and> outbox (snd (process_registration_event svc message (st\<lparr>event_registrations := rows\<rparr>)))
       = outbox (snd (process_registration_event svc message st))"
proof (intro conjI impI)
  assume "filtered_out message"
  then show "snd (process_registration_event svc message st) = st"
    by (rule process_filtered_out)
next
  assume "\<forall>v\<in>set records. filtered_out v"
  then show "snd (snd (run svc available (map Json records) st)) = st"
    by (simp add: run_def run_loop_filtered_out split: sum.splits)
next
  assume "status_of after_data \<noteq> PStr ''registered'' \<or> truthy (email_sent_of after_data)"
  then show "filtered_out (PDict after_data)" by (auto simp add: filtered_out_def)
next
  assume "after_data \<noteq> [] \<and> status_of after_data = PStr ''registered''
        \<and> \<not> truthy (email_sent_of after_data)"
  then have "\<not> filtered_out (PDict after_data)" by (simp add: filtered_out_def)
  then show "queries (snd (process_registration_event svc (PDict after_data) st))
              = queries st @ [registration_id_of after_data]"
    by (rule process_actionable_queries)
next
  show "outbox (snd (process_registration_event svc message (st\<lparr>event_registrations := rows\<rparr>)))
       = outbox (snd (process_registration_event svc message st))"
    by (rule process_outbox_table)
qed

theorem filtered_out_no_effect_witness:
  "filtered_out (PDict [(''id'', PInt 1), (''status'', PStr ''registered''),
                        (''email_sent'', PBool True)])
   \<and> snd (process_registration_event demo_services
        (PDict [(''id'', PInt 1), (''status'', PStr ''registered''),
                (''email_sent'', PBool True)]) demo_world) = demo_world
   \<and> snd (snd (run demo_services (\<lambda>attempt. True)
        (map Json (replicate 3 (PDict [(''id'', PInt 1), (''status'', PStr ''registered''),
                             (''email_sent'', PBool True)]))) demo_world)) = demo_world
   \<and> queries (snd (process_registration_event demo_services
        (PDict [(''id'', PInt 1), (''status'', PStr ''registered''),
                (''email_sent'', PBool False)]) demo_world)) = [PInt 1]"
proof -
  have f: "filtered_out (PDict [(''id'', PInt 1), (''status'', PStr ''registered''),
                        (''email_sent'', PBool True)])"
    by (simp add: filtered_out_def status_of_def email_sent_of_def dict_get_def)
  note th = filtered_out_no_effect
      [of "PDict [(''id'', PInt 1), (''status'', PStr ''registered''), (''email_sent'', PBool True)]"
          demo_services demo_world
          "replicate 3 (PDict [(''id'', PInt 1), (''status'', PStr ''registered''),
                               (''email_sent'', PBool True)])"
          "\<lambda>attempt. True"
          "[(''id'', PInt 1), (''status'', PStr ''registered''), (''email_sent'', PBool False)]"]
  note a = th [THEN conjunct1, THEN mp, OF f]
  have "\<forall>v\<in>set (replicate 3 (PDict [(''id'', PInt 1), (''status'', PStr ''registered''),
                             (''email_sent'', PBool True)])). filtered_out v"
    using f by simp
  note b = th [THEN conjunct2, THEN conjunct1, THEN mp, OF this]
  have "[(''id'', PInt 1), (''status'', PStr ''registered''), (''email_sent'', PBool False)] \<noteq> []
      \<and> status_of [(''id'', PInt 1), (''status'', PStr ''registered''),
                    (''email_sent'', PBool False)] = PStr ''registered''
      \<and> \<not> truthy (email_sent_of [(''id'', PInt 1), (''status'', PStr ''registered''),
                                  (''email_sent'', PBool False)])"
    by (simp add: status_of_def email_sent_of_def dict_get_def)
  note c0 = th [THEN conjunct2, THEN conjunct2, THEN conjunct2, THEN conjunct1, THEN mp, OF this]
  have c: "queries (snd (process_registration_event demo_services
        (PDict [(''id'', PInt 1), (''status'', PStr ''registered''),
                (''email_sent'', PBool False)]) demo_world)) = [PInt 1]"
    using c0 by (simp add: demo_world_def registration_id_of_def dict_get_def)
  show ?thesis by (intro conjI f a b c)
qed


subsection \<open>The flag is written after a send that succeeded\<close>

lemma send_outcome:
  "send_registration_confirmation svc e n ed st = (ok, st2) \<Longrightarrow>
   (ok \<and> (\<exists>msg. smtp_accepts svc msg \<and> st2 = st\<lparr>outbox := outbox st @ [msg]\<rparr>))
   \<or> (\<not> ok \<and> st2 = st)"
  by (auto simp add: send_registration_confirmation_def split: sum.splits if_splits)

text \<open>
  What processing a record that passes the gate does: it queries the read model; then
  either nothing more happens (no details, a missing column, or a send that failed), or
  the SMTP server took one message and \<^verbatim>\<open>mark_email_sent\<close> ran after it.
\<close>

lemma process_outcome:
  fixes d svc st
  assumes "\<not> filtered_out (PDict d)"
  defines "rid \<equiv> registration_id_of d"
  defines "st1 \<equiv> st\<lparr>queries := queries st @ [rid]\<rparr>"
  shows "snd (process_registration_event svc (PDict d) st) = st1
       \<or> (\<exists>msg. fst (get_registration_details svc rid st) \<noteq> None \<and> smtp_accepts svc msg
            \<and> snd (process_registration_event svc (PDict d) st)
                = snd (mark_email_sent svc rid (st1\<lparr>outbox := outbox st1 @ [msg]\<rparr>)))"
proof -
  obtain rd where g: "get_registration_details svc rid st = (rd, st1)"
    by (simp add: get_registration_details_def st1_def)
  show ?thesis
  proof (cases rd)
    case None
    then show ?thesis using assms(1) g
      by (simp add: filtered_out_def process_registration_event_def process_body_def rid_def)
  next
    case (Some details)
    show ?thesis
    proof (cases "prepare_email details")
      case (Inl e)
      then show ?thesis using assms(1) g Some
        by (simp add: filtered_out_def process_registration_event_def process_body_def rid_def)
    next
      case (Inr p)
      obtain user_email user_name event_details where p: "p = (user_email, user_name, event_details)"
        by (cases p)
      obtain ok st2 where s: "send_registration_confirmation svc user_email user_name
          event_details st1 = (ok, st2)"
        by (cases "send_registration_confirmation svc user_email user_name event_details st1")
      have u: "snd (process_registration_event svc (PDict d) st)
          = (if ok then snd (mark_email_sent svc rid st2) else st2)"
        using assms(1) g Some Inr p s
        by (cases ok)
           (simp_all add: filtered_out_def process_registration_event_def process_body_def
              rid_def)
      from send_outcome [OF s] show ?thesis
      proof
        assume "ok \<and> (\<exists>msg. smtp_accepts svc msg \<and> st2 = st1\<lparr>outbox := outbox st1 @ [msg]\<rparr>)"
        then show ?thesis using u g Some by auto
      next
        assume "\<not> ok \<and> st2 = st1"
        then show ?thesis using u by simp
      qed
    qed
  qed
qed

lemma process_no_details:
  assumes "fst (get_registration_details svc (registration_id_of d) st) = None"
  shows "updates (snd (process_registration_event svc (PDict d) st)) = updates st
       \<and> outbox (snd (process_registration_event svc (PDict d) st)) = outbox st
       \<and> event_registrations (snd (process_registration_event svc (PDict d) st))
           = event_registrations st"
proof (cases "filtered_out (PDict d)")
  case True
  then show ?thesis by (simp add: process_filtered_out)
next
  case False
  from process_outcome [OF False, of svc st] assms show ?thesis by auto
qed

text \<open>The same record with a database that fails the update of the flag.\<close>

lemma demo_failed_update:
  "process_registration_event update_failing_services
     (PDict [(''id'', PInt 1), (''status'', PStr ''registered''), (''email_sent'', PBool False)])
     demo_world
   = (None,
      \<lparr>event_registrations = [(1, \<lparr>email_sent = False, email_sent_at = None\<rparr>)],
       queries = [PInt 1], updates = [PInt 1],
       outbox =
         [\<lparr>msg_to = DText ''user@example.org'', msg_subject = subject_prefix @ ''Launch'',
           msg_html = \<lparr>greeting_name = ''mona'', heading_title = ''Launch'',
                        date_time_line = ''2024-10-04 at 09:30:00'',
                        location_line = ''Cairo'', category_line = ''Tech'',
                        organizer_line = ''Qeema'', description_block = None\<rparr>\<rparr>]\<rparr>)"
  by code_simp

text \<open>
  Claim C5 says that the flag is persisted whenever the send succeeded. The consumer
  does not look at what \<^verbatim>\<open>mark_email_sent\<close> returns, and \<^verbatim>\<open>mark_email_sent\<close> turns a failure of
  the database into \<^verbatim>\<open>False\<close>. With a database that fails the update, the message of the
  record below is accepted by the SMTP server, the update is issued, and the row is as
  it was: the flag is not set, and no time is recorded.
\<close>

theorem flag_write_iff_sent_counterexample:
  "length (outbox (snd (process_registration_event update_failing_services
      (PDict [(''id'', PInt 1), (''status'', PStr ''registered''), (''email_sent'', PBool False)])
      demo_world))) = 1
   \<and> updates (snd (process_registration_event update_failing_services
      (PDict [(''id'', PInt 1), (''status'', PStr ''registered''), (''email_sent'', PBool False)])
      demo_world)) = [PInt 1]
   \<and> event_registrations (snd (process_registration_event update_failing_services
      (PDict [(''id'', PInt 1), (''status'', PStr ''registered''), (''email_sent'', PBool False)])
      demo_world)) = [(1, \<lparr>email_sent = False, email_sent_at = None\<rparr>)]"
  by (simp add: demo_failed_update)

text \<open>
  Claim C5, as the code has it. Processing a message ends in one of two ways. Either no
  message was sent, and then no update of the flag was issued and the table is as it
  was (this is the case whenever the read model gives no details and whenever the SMTP
  server refuses); or the SMTP server took exactly one message, and then exactly one
  update was issued, with the id of the record as its parameter. The update sets
  \<^verbatim>\<open>email_sent\<close> to true and \<^verbatim>\<open>email_sent_at\<close> to the time of the database in the rows the
  database finds for that id, unless the database fails the statement: that is logged
  by \<^verbatim>\<open>mark_email_sent\<close> and ignored by the consumer, and the table is as it was although
  the message is sent.
\<close>

theorem flag_write_iff_sent:
  fixes svc message st
  defines "st' \<equiv> snd (process_registration_event svc message st)"
  defines "rid \<equiv> (case message of PDict d \<Rightarrow> registration_id_of d | _ \<Rightarrow> PNone)"
  shows "((outbox st' = outbox st \<and> updates st' = updates st
            \<and> event_registrations st' = event_registrations st)
          \<or> ((\<exists>msg. smtp_accepts svc msg \<and> outbox st' = outbox st @ [msg])
              \<and> updates st' = updates st @ [rid]
              \<and> event_registrations st'
                  = (if update_fails svc rid then event_registrations st
                     else map (\<lambda>(i, row). if where_id svc rid i
                                 then (i, row\<lparr>email_sent := True,
                                              email_sent_at := Some (current_timestamp svc)\<rparr>)
                                 else (i, row))
                            (event_registrations st))))
       \<and> ((\<forall>msg. \<not> smtp_accepts svc msg) \<longrightarrow>
             updates st' = updates st \<and> event_registrations st' = event_registrations st)
       \<and> (fst (get_registration_details svc rid st) = None \<longrightarrow>
             updates st' = updates st \<and> event_registrations st' = event_registrations st)
       \<and> (update_fails svc rid \<longrightarrow> event_registrations st' = event_registrations st)"
proof -
  have main: "(outbox st' = outbox st \<and> updates st' = updates st
            \<and> event_registrations st' = event_registrations st)
          \<or> ((\<exists>msg. smtp_accepts svc msg \<and> outbox st' = outbox st @ [msg]
                 \<and> fst (get_registration_details svc rid st) \<noteq> None)
              \<and> updates st' = updates st @ [rid]
              \<and> event_registrations st'
                  = (if update_fails svc rid then event_registrations st
                     else map (\<lambda>(i, row). if where_id svc rid i
                                 then (i, row\<lparr>email_sent := True,
                                              email_sent_at := Some (current_timestamp svc)\<rparr>)
                                 else (i, row))
                            (event_registrations st)))"
  proof (cases "filtered_out message")
    case True
    then show ?thesis by (simp add: st'_def process_filtered_out)
  next
    case False
    then obtain d where d: "message = PDict d"
      by (cases message) (simp_all add: filtered_out_def)
    from process_outcome [OF False [unfolded d], of svc st] show ?thesis
      by (auto simp add: st'_def rid_def d mark_email_sent_def)
  qed
  show ?thesis
  proof (intro conjI impI)
    show "(outbox st' = outbox st \<and> updates st' = updates st
            \<and> event_registrations st' = event_registrations st)
          \<or> ((\<exists>msg. smtp_accepts svc msg \<and> outbox st' = outbox st @ [msg])
              \<and> updates st' = updates st @ [rid]
              \<and> event_registrations st'
                  = (if update_fails svc rid then event_registrations st
                     else map (\<lambda>(i, row). if where_id svc rid i
                                 then (i, row\<lparr>email_sent := True,
                                              email_sent_at := Some (current_timestamp svc)\<rparr>)
                                 else (i, row))
                            (event_registrations st)))"
      using main by blast
  next
    assume "\<forall>msg. \<not> smtp_accepts svc msg"
    then show "updates st' = updates st" "event_registrations st' = event_registrations st"
      using main by blast+
  next
    assume "fst (get_registration_details svc rid st) = None"
    then show "updates st' = updates st" "event_registrations st' = event_registrations st"
      using main by blast+
  next
    assume "update_fails svc rid"
    then show "event_registrations st' = event_registrations st"
      using main by auto
  qed
qed

theorem flag_write_iff_sent_witness:
  "snd (process_registration_event demo_services
         (PDict [(''id'', PInt 1), (''status'', PStr ''registered''),
                 (''email_sent'', PBool False)]) demo_world)
     = demo_world\<lparr>event_registrations :=
                     [(1, \<lparr>email_sent = True, email_sent_at = Some 1000\<rparr>)],
                   queries := [PInt 1], updates := [PInt 1],
                   outbox := [\<lparr>msg_to = DText ''user@example.org'',
                                msg_subject = subject_prefix @ ''Launch'',
                                msg_html = \<lparr>greeting_name = ''mona'', heading_title = ''Launch'',
                                   date_time_line = ''2024-10-04 at 09:30:00'',
                                   location_line = ''Cairo'', category_line = ''Tech'',
                                   organizer_line = ''Qeema'', description_block = None\<rparr>\<rparr>]\<rparr>
   \<and> (updates (snd (process_registration_event
          (demo_services\<lparr>smtp_accepts := (\<lambda>msg. False)\<rparr>)
          (PDict [(''id'', PInt 1), (''status'', PStr ''registered''),
                  (''email_sent'', PBool False)]) demo_world)) = updates demo_world
        \<and> event_registrations (snd (process_registration_event
          (demo_services\<lparr>smtp_accepts := (\<lambda>msg. False)\<rparr>)
          (PDict [(''id'', PInt 1), (''status'', PStr ''registered''),
                  (''email_sent'', PBool False)]) demo_world)) = event_registrations demo_world)"
proof -
  have a: "snd (process_registration_event demo_services
         (PDict [(''id'', PInt 1), (''status'', PStr ''registered''),
                 (''email_sent'', PBool False)]) demo_world)
     = demo_world\<lparr>event_registrations :=
                     [(1, \<lparr>email_sent = True, email_sent_at = Some 1000\<rparr>)],
                   queries := [PInt 1], updates := [PInt 1],
                   outbox := [\<lparr>msg_to = DText ''user@example.org'',
                                msg_subject = subject_prefix @ ''Launch'',
                                msg_html = \<lparr>greeting_name = ''mona'', heading_title = ''Launch'',
                                   date_time_line = ''2024-10-04 at 09:30:00'',
                                   location_line = ''Cairo'', category_line = ''Tech'',
                                   organizer_line = ''Qeema'', description_block = None\<rparr>\<rparr>]\<rparr>"
    unfolding demo_first_delivery by (simp add: demo_world_def)
  have n: "\<forall>msg. \<not> smtp_accepts (demo_services\<lparr>smtp_accepts := (\<lambda>msg. False)\<rparr>) msg"
    by simp
  note b = flag_write_iff_sent [THEN conjunct2, THEN conjunct1, THEN mp, OF n]
  show ?thesis by (intro conjI a b [THEN conjunct1] b [THEN conjunct2])
qed


subsection \<open>The fallbacks of the email body\<close>

text \<open>
  From a row that has the columns of the read model, \<^verbatim>\<open>process_registration_event\<close>
  always gets its recipient, its display name and its details.
\<close>

lemma prepare_email_columns:
  assumes "map_of rd ''event_title'' = Some title"
    and "map_of rd ''event_description'' = Some description"
    and "map_of rd ''event_category'' = Some category"
    and "map_of rd ''event_location'' = Some location"
    and "map_of rd ''event_date'' = Some dv"
    and "map_of rd ''event_time'' = Some tv"
    and "map_of rd ''organizer'' = Some organizer"
    and "map_of rd ''email'' = Some ue"
    and "map_of rd ''full_name'' = Some fn"
    and "map_of rd ''username'' = Some un"
  shows "prepare_email rd
     = Inr (ue, (if db_truthy fn then fn else un),
            [(''title'', title), (''description'', description), (''category'', category),
             (''location'', location), (''event_date'', or_TBD dv),
             (''event_time'', or_TBD tv), (''organizer'', organizer)])"
proof -
  have g: "getitem rd ''event_title'' = Inr title"
    "getitem rd ''event_description'' = Inr description"
    "getitem rd ''event_category'' = Inr category"
    "getitem rd ''event_location'' = Inr location"
    "getitem rd ''event_date'' = Inr dv"
    "getitem rd ''event_time'' = Inr tv"
    "getitem rd ''organizer'' = Inr organizer"
    "getitem rd ''email'' = Inr ue"
    "getitem rd ''full_name'' = Inr fn"
    "getitem rd ''username'' = Inr un"
    using assms by (simp_all add: getitem_def)
  show ?thesis
    unfolding prepare_email_def g and_then_simps
    by (cases "db_truthy fn") (simp_all only: if_True if_False and_then_simps)
qed

text \<open>The template is made from every dictionary that has a title.\<close>

lemma create_email_template_returns:
  assumes "map_of ed ''title'' = Some ti"
  shows "\<exists>t. create_email_template n ed = Inr t
       \<and> greeting_name t = db_str n
       \<and> date_time_line t =
          (if dict_get ed ''event_date'' (DText ''TBD'') \<noteq> DText ''TBD''
              \<and> dict_get ed ''event_time'' (DText ''TBD'') \<noteq> DText ''TBD''
           then db_str (dict_get ed ''event_date'' (DText ''TBD'')) @ '' at ''
                @ db_str (dict_get ed ''event_time'' (DText ''TBD''))
           else if dict_get ed ''event_date'' (DText ''TBD'') \<noteq> DText ''TBD''
           then db_str (dict_get ed ''event_date'' (DText ''TBD''))
           else ''Date and time to be announced'')"
proof -
  define desc where "desc = (if db_truthy (dict_get ed ''description'' DNull)
                     then and_then (getitem ed ''description'')
                            (\<lambda>d. Inr (Some (db_str d)))
                     else Inr None)"
  have u: "create_email_template n ed =
      and_then (getitem ed ''title'') (\<lambda>title. and_then desc (\<lambda>description.
        Inr \<lparr>greeting_name = db_str n,
             heading_title = db_str title,
             date_time_line =
               (if dict_get ed ''event_date'' (DText ''TBD'') \<noteq> DText ''TBD''
                   \<and> dict_get ed ''event_time'' (DText ''TBD'') \<noteq> DText ''TBD''
                then db_str (dict_get ed ''event_date'' (DText ''TBD'')) @ '' at ''
                     @ db_str (dict_get ed ''event_time'' (DText ''TBD''))
                else if dict_get ed ''event_date'' (DText ''TBD'') \<noteq> DText ''TBD''
                then db_str (dict_get ed ''event_date'' (DText ''TBD''))
                else ''Date and time to be announced''),
             location_line = db_str (dict_get ed ''location'' (DText ''Location TBD'')),
             category_line = db_str (dict_get ed ''category'' (DText ''General'')),
             organizer_line = db_str (dict_get ed ''organizer'' (DText ''Event Organizer'')),
             description_block = description\<rparr>))"
    unfolding create_email_template_def Let_def desc_def by (rule refl)
  have g1: "getitem ed ''title'' = Inr ti"
    using assms by (simp add: getitem_def)
  have "\<exists>x. desc = Inr x"
    by (cases "map_of ed ''description''") (simp_all add: desc_def dict_get_def getitem_def)
  then obtain description where g2: "desc = Inr description" by blast
  show ?thesis unfolding u g1 g2 and_then_simps by simp
qed

text \<open>
  Claim C9 says that in the body the date and the time each fall back to \<^verbatim>\<open>'TBD'\<close>. They
  do so in the details the consumer prepares; the template then looks for \<^verbatim>\<open>'TBD'\<close> and
  never prints it. A row without a time gives a body whose line of date and time is
  the date alone, and a row without a date gives the line \<^verbatim>\<open>Date and time to be announced\<close>
  although its time is there.
\<close>

theorem email_fallbacks_counterexample:
  "prepare_email (AList.update ''event_time'' DNull demo_row)
     = Inr (DText ''user@example.org'', DText ''mona'',
            [(''title'', DText ''Launch''), (''description'', DNull),
             (''category'', DText ''Tech''), (''location'', DText ''Cairo''),
             (''event_date'', DText ''2024-10-04''), (''event_time'', DText ''TBD''),
             (''organizer'', DText ''Qeema'')])
   \<and> create_email_template (DText ''mona'')
            [(''title'', DText ''Launch''), (''description'', DNull),
             (''category'', DText ''Tech''), (''location'', DText ''Cairo''),
             (''event_date'', DText ''2024-10-04''), (''event_time'', DText ''TBD''),
             (''organizer'', DText ''Qeema'')]
     = Inr \<lparr>greeting_name = ''mona'', heading_title = ''Launch'',
            date_time_line = ''2024-10-04'',
            location_line = ''Cairo'', category_line = ''Tech'',
            organizer_line = ''Qeema'', description_block = None\<rparr>
   \<and> prepare_email (AList.update ''event_date'' DNull demo_row)
     = Inr (DText ''user@example.org'', DText ''mona'',
            [(''title'', DText ''Launch''), (''description'', DNull),
             (''category'', DText ''Tech''), (''location'', DText ''Cairo''),
             (''event_date'', DText ''TBD''), (''event_time'', DText ''09:30:00''),
             (''organizer'', DText ''Qeema'')])
   \<and> create_email_template (DText ''mona'')
            [(''title'', DText ''Launch''), (''description'', DNull),
             (''category'', DText ''Tech''), (''location'', DText ''Cairo''),
             (''event_date'', DText ''TBD''), (''event_time'', DText ''09:30:00''),
             (''organizer'', DText ''Qeema'')]
     = Inr \<lparr>greeting_name = ''mona'', heading_title = ''Launch'',
            date_time_line = ''Date and time to be announced'',
            location_line = ''Cairo'', category_line = ''Tech'',
            organizer_line = ''Qeema'', description_block = None\<rparr>"
  by code_simp

text \<open>
  Claim C9, as the code has it. From a row of the read model (it has all the columns
  the consumer reads) the consumer always gets its details and the template always
  gives a body. In the details the event date and the event time are each the text of
  the value, or \<^verbatim>\<open>'TBD'\<close> when the value is missing (null or otherwise false); the display
  name is the full name, or the username when the full name is empty, and the greeting
  uses it. In the body the line of date and time reads \<^verbatim>\<open>date at time\<close> when both are
  there, the date alone when only the time is missing, and
  \<^verbatim>\<open>Date and time to be announced\<close> when the date is missing, with or without a time; a
  value whose text is \<^verbatim>\<open>TBD\<close> counts as missing. The body never shows \<^verbatim>\<open>'TBD'\<close> for a missing
  date or time. The template itself, for every dictionary with a title, takes a key
  that is absent like a missing value.
\<close>

theorem email_fallbacks:
  assumes "map_of rd ''event_title'' = Some title"
    and "map_of rd ''event_description'' = Some description"
    and "map_of rd ''event_category'' = Some category"
    and "map_of rd ''event_location'' = Some location"
    and "map_of rd ''event_date'' = Some dv"
    and "map_of rd ''event_time'' = Some tv"
    and "map_of rd ''organizer'' = Some organizer"
    and "map_of rd ''email'' = Some ue"
    and "map_of rd ''full_name'' = Some fn"
    and "map_of rd ''username'' = Some un"
  shows "(\<exists>ed t.
            prepare_email rd = Inr (ue, (if db_truthy fn then fn else un), ed)
          \<and> map_of ed ''event_date'' = Some (DText (if db_truthy dv then db_str dv else ''TBD''))
          \<and> map_of ed ''event_time'' = Some (DText (if db_truthy tv then db_str tv else ''TBD''))
          \<and> create_email_template (if db_truthy fn then fn else un) ed = Inr t
          \<and> greeting_name t = (if db_truthy fn then db_str fn else db_str un)
          \<and> date_time_line t =
              (if db_truthy dv \<and> db_str dv \<noteq> ''TBD''
               then (if db_truthy tv \<and> db_str tv \<noteq> ''TBD''
                     then db_str dv @ '' at '' @ db_str tv else db_str dv)
               else ''Date and time to be announced''))
       \<and> (map_of details ''title'' = Some ti \<longrightarrow>
            (\<exists>t. create_email_template name details = Inr t
               \<and> (map_of details ''event_date'' = None \<longrightarrow>
                    date_time_line t = ''Date and time to be announced'')
               \<and> (map_of details ''event_time'' = None \<longrightarrow>
                    (\<forall>d. map_of details ''event_date'' = Some d \<and> d \<noteq> DText ''TBD'' \<longrightarrow>
                       date_time_line t = db_str d))))"
proof (intro conjI impI)
  define ed where "ed = [(''title'', title), (''description'', description),
             (''category'', category), (''location'', location), (''event_date'', or_TBD dv),
             (''event_time'', or_TBD tv), (''organizer'', organizer)]"
  define nm where "nm = (if db_truthy fn then fn else un)"
  have p: "prepare_email rd = Inr (ue, nm, ed)"
    unfolding ed_def nm_def by (rule prepare_email_columns [OF assms])
  have d: "map_of ed ''event_date'' = Some (DText (if db_truthy dv then db_str dv else ''TBD''))"
    by (simp add: ed_def or_TBD_def)
  have t: "map_of ed ''event_time'' = Some (DText (if db_truthy tv then db_str tv else ''TBD''))"
    by (simp add: ed_def or_TBD_def)
  have ti: "map_of ed ''title'' = Some title" by (simp add: ed_def)
  from create_email_template_returns [OF ti, of nm] obtain tm
    where c: "create_email_template nm ed = Inr tm"
      and g: "greeting_name tm = db_str nm"
      and l: "date_time_line tm =
          (if dict_get ed ''event_date'' (DText ''TBD'') \<noteq> DText ''TBD''
              \<and> dict_get ed ''event_time'' (DText ''TBD'') \<noteq> DText ''TBD''
           then db_str (dict_get ed ''event_date'' (DText ''TBD'')) @ '' at ''
                @ db_str (dict_get ed ''event_time'' (DText ''TBD''))
           else if dict_get ed ''event_date'' (DText ''TBD'') \<noteq> DText ''TBD''
           then db_str (dict_get ed ''event_date'' (DText ''TBD''))
           else ''Date and time to be announced'')"
    by blast
  have g': "greeting_name tm = (if db_truthy fn then db_str fn else db_str un)"
    using g by (simp add: nm_def)
  have l': "date_time_line tm =
              (if db_truthy dv \<and> db_str dv \<noteq> ''TBD''
               then (if db_truthy tv \<and> db_str tv \<noteq> ''TBD''
                     then db_str dv @ '' at '' @ db_str tv else db_str dv)
               else ''Date and time to be announced'')"
    unfolding l by (simp add: dict_get_def d t)
  show "\<exists>ed t.
            prepare_email rd = Inr (ue, (if db_truthy fn then fn else un), ed)
          \<and> map_of ed ''event_date'' = Some (DText (if db_truthy dv then db_str dv else ''TBD''))
          \<and> map_of ed ''event_time'' = Some (DText (if db_truthy tv then db_str tv else ''TBD''))
          \<and> create_email_template (if db_truthy fn then fn else un) ed = Inr t
          \<and> greeting_name t = (if db_truthy fn then db_str fn else db_str un)
          \<and> date_time_line t =
              (if db_truthy dv \<and> db_str dv \<noteq> ''TBD''
               then (if db_truthy tv \<and> db_str tv \<noteq> ''TBD''
                     then db_str dv @ '' at '' @ db_str tv else db_str dv)
               else ''Date and time to be announced'')"
    by (intro exI [of _ ed] exI [of _ tm] conjI p [unfolded nm_def] d t c [unfolded nm_def] g' l')
next
  assume ti: "map_of details ''title'' = Some ti"
  from create_email_template_returns [OF ti, of name] obtain tm
    where c: "create_email_template name details = Inr tm"
      and l: "date_time_line tm =
          (if dict_get details ''event_date'' (DText ''TBD'') \<noteq> DText ''TBD''
              \<and> dict_get details ''event_time'' (DText ''TBD'') \<noteq> DText ''TBD''
           then db_str (dict_get details ''event_date'' (DText ''TBD'')) @ '' at ''
                @ db_str (dict_get details ''event_time'' (DText ''TBD''))
           else if dict_get details ''event_date'' (DText ''TBD'') \<noteq> DText ''TBD''
           then db_str (dict_get details ''event_date'' (DText ''TBD''))
           else ''Date and time to be announced'')"
    by blast
  have a: "map_of details ''event_date'' = None \<longrightarrow>
      date_time_line tm = ''Date and time to be announced''"
    unfolding l by (simp add: dict_get_def)
  have b: "map_of details ''event_time'' = None \<longrightarrow>
      (\<forall>d. map_of details ''event_date'' = Some d \<and> d \<noteq> DText ''TBD'' \<longrightarrow>
         date_time_line tm = db_str d)"
    unfolding l by (simp add: dict_get_def)
  show "\<exists>t. create_email_template name details = Inr t
               \<and> (map_of details ''event_date'' = None \<longrightarrow>
                    date_time_line t = ''Date and time to be announced'')
               \<and> (map_of details ''event_time'' = None \<longrightarrow>
                    (\<forall>d. map_of details ''event_date'' = Some d \<and> d \<noteq> DText ''TBD'' \<longrightarrow>
                       date_time_line t = db_str d))"
    by (intro exI [of _ tm] conjI c a b)
qed

theorem email_fallbacks_witness:
  "\<exists>ed t. prepare_email demo_row = Inr (DText ''user@example.org'', DText ''mona'', ed)
     \<and> map_of ed ''event_date'' = Some (DText ''2024-10-04'')
     \<and> map_of ed ''event_time'' = Some (DText ''09:30:00'')
     \<and> create_email_template (DText ''mona'') ed = Inr t
     \<and> greeting_name t = ''mona''
     \<and> date_time_line t = ''2024-10-04 at 09:30:00''"
proof -
  have c: "map_of demo_row ''event_title'' = Some (DText ''Launch'')"
    "map_of demo_row ''event_description'' = Some DNull"
    "map_of demo_row ''event_category'' = Some (DText ''Tech'')"
    "map_of demo_row ''event_location'' = Some (DText ''Cairo'')"
    "map_of demo_row ''event_date'' = Some (DDate 2024 10 4)"
    "map_of demo_row ''event_time'' = Some (DTime 9 30 0)"
    "map_of demo_row ''organizer'' = Some (DText ''Qeema'')"
    "map_of demo_row ''email'' = Some (DText ''user@example.org'')"
    "map_of demo_row ''full_name'' = Some (DText '''')"
    "map_of demo_row ''username'' = Some (DText ''mona'')"
    by (simp_all add: demo_row_def)
  have e: "db_str (DDate 2024 10 4) = ''2024-10-04''" "db_str (DTime 9 30 0) = ''09:30:00''"
    "db_str (DText ''mona'') = ''mona''"
    by code_simp+
  from email_fallbacks [OF c, THEN conjunct1] show ?thesis
    by (simp add: e del: db_str.simps)
qed


end
